theory Spec2Isabelle
  imports Main "HOL-Library.Word" "HOL-Library.Sublist"
begin

unbundle bit_operations_syntax

section \<open>Streams, errors and the struct module\<close>

text \<open>
  The patcher reads the manifest through a seekable binary stream and appends to an output
  stream. The input is never written, so the model of the input stream is its kind, its
  content and, threaded through every function that reads, the current position.

  Two kinds of input stream reach \<open>patchManifest\<close>: the buffered file object that
  \<open>open(fn, "rb")\<close> returns (\<open>patchManifestByFilename\<close> and the \<open>xml\<close> mode of the
  script) and the archive member that \<open>ZipFile.open\<close> returns (\<open>patchApk\<close>). They
  agree wherever a position stays inside the content and a read length is not negative;
  they differ in what \<open>seek\<close> does outside the content (the file keeps a position past
  the end and refuses a negative one, the archive member clamps into the content) and in what
  \<open>read\<close> does with a length below \<open>-1\<close> (the file raises \<open>ValueError\<close>, the archive
  member reads to the end).

  Python integers are unbounded: every number is an \<open>int\<close>. Every \<open>raise\<close> and every
  exception of the library is a value of \<open>error\<close>.
\<close>

type_synonym byte = "8 word"

datatype error =
    TypeError | StructError | ValueError | OSError | AssertionError | FileNotFoundError
  | FileHeaderSize | MoreThanOneStringPool | MoreThanOneResmap | NoStringPool
  | StringNotTerminated | MultipleApplication | NoApplication | AttributeLength
  | SanityCheck | NoAndroidNs | UnboundLocalError

definition bindE :: "error + 'a \<Rightarrow> ('a \<Rightarrow> error + 'b) \<Rightarrow> error + 'b" where
  "bindE m g = (case m of Inl e \<Rightarrow> Inl e | Inr x \<Rightarrow> g x)"

declare bindE_def [code_unfold]

datatype stream_kind = BufferedFile | ZipEntry

record in_stream =
  kind :: stream_kind
  content :: "byte list"

definition stream_size :: "in_stream \<Rightarrow> int" where
  "stream_size f = int (length (content f))"

definition stream_seek :: "in_stream \<Rightarrow> int \<Rightarrow> error + int" where
  "stream_seek f p =
     (case kind f of
        BufferedFile \<Rightarrow> if p < 0 then Inl OSError else Inr p
      | ZipEntry \<Rightarrow> Inr (max 0 (min p (stream_size f))))"

definition stream_seek_cur :: "in_stream \<Rightarrow> int \<Rightarrow> int \<Rightarrow> error + int" where
  "stream_seek_cur f pos off = stream_seek f (pos + off)"

definition stream_read :: "in_stream \<Rightarrow> int \<Rightarrow> int \<Rightarrow> error + byte list \<times> int" where
  "stream_read f pos n =
     (if n < 0 then
        (if n = - 1 \<or> kind f = ZipEntry
         then Inr (drop (nat pos) (content f), max pos (stream_size f))
         else Inl ValueError)
      else (let bs = take (nat n) (drop (nat pos) (content f))
            in Inr (bs, pos + int (length bs))))"

text \<open>
  \<open>struct.pack\<close> and \<open>struct.unpack\<close> with a little-endian format of unsigned fields:
  the format is the list of the field widths in bytes (\<open>"<HHI"\<close> is \<open>[2, 2, 4]\<close>).
  \<open>unpack\<close> raises \<open>struct.error\<close> unless the buffer has exactly the size of the
  format; \<open>pack\<close> raises it for a value outside the range of its field.
\<close>

fun le_int :: "byte list \<Rightarrow> int" where
  "le_int [] = 0"
| "le_int (b # bs) = uint b + 256 * le_int bs"

fun le_bytes :: "nat \<Rightarrow> int \<Rightarrow> byte list" where
  "le_bytes 0 v = []"
| "le_bytes (Suc n) v = word_of_int (v mod 256) # le_bytes n (v div 256)"

fun split_fields :: "nat list \<Rightarrow> byte list \<Rightarrow> int list" where
  "split_fields [] bs = []"
| "split_fields (w # ws) bs = le_int (take w bs) # split_fields ws (drop w bs)"

definition unpack :: "nat list \<Rightarrow> byte list \<Rightarrow> error + int list" where
  "unpack fmt bs =
     (if length bs = sum_list fmt then Inr (split_fields fmt bs) else Inl StructError)"

fun pack :: "nat list \<Rightarrow> int list \<Rightarrow> error + byte list" where
  "pack [] [] = Inr []"
| "pack (w # ws) (v # vs) =
     (if 0 \<le> v \<and> v < 256 ^ w
      then (case pack ws vs of Inl e \<Rightarrow> Inl e | Inr bs \<Rightarrow> Inr (le_bytes w v @ bs))
      else Inl StructError)"
| "pack [] (v # vs) = Inl StructError"
| "pack (w # ws) [] = Inl StructError"

section \<open>Constants\<close>

definition COMMON_HEADER_LEN :: int where "COMMON_HEADER_LEN = 8"
definition CHUNK_TYPE_STRINGPOOL :: int where "CHUNK_TYPE_STRINGPOOL = 0x1"
definition CHUNK_TYPE_RESMAP :: int where "CHUNK_TYPE_RESMAP = 0x180"
definition CHUNK_TYPE_START_ELEMENT :: int where "CHUNK_TYPE_START_ELEMENT = 0x0102"
definition DEBUGGABLE_RES_ID :: int where "DEBUGGABLE_RES_ID = 0x0101000f"
definition DEBUGGABLE_STRING_LENGTH_UTF8 :: int where "DEBUGGABLE_STRING_LENGTH_UTF8 = 12"
definition DEBUGGABLE_STRING_LENGTH_UTF16 :: int where "DEBUGGABLE_STRING_LENGTH_UTF16 = 24"
definition UINT32_LENGTH :: int where "UINT32_LENGTH = 4"
definition UINT16_LENGTH :: int where "UINT16_LENGTH = 2"
definition ATTRIBUTE_LENGTH :: int where "ATTRIBUTE_LENGTH = 20"

definition DEBUGGABLE_STRING_DATA_UTF8 :: "byte list" where
  "DEBUGGABLE_STRING_DATA_UTF8 = [10, 100, 101, 98, 117, 103, 103, 97, 98, 108, 101, 0]"

definition DEBUGGABLE_STRING_DATA_UTF16 :: "byte list" where
  "DEBUGGABLE_STRING_DATA_UTF16 =
     [10, 0, 100, 0, 101, 0, 98, 0, 117, 0, 103, 0, 103, 0, 97, 0, 98, 0, 108, 0, 101, 0, 0, 0]"

definition DEBUGGABLE_VALUE_TRUE :: "byte list" where
  "DEBUGGABLE_VALUE_TRUE = [0xFF, 0xFF, 0xFF, 0xFF]"

text \<open>A Python \<open>str\<close> is the list of its code points.\<close>

type_synonym pystr = "int list"

definition pystr_of :: "string \<Rightarrow> pystr" where
  "pystr_of s = map of_char s"

definition DEBUGGABLE_STRING :: pystr where
  "DEBUGGABLE_STRING = pystr_of ''debuggable''"

definition ANDROID_NS_STRING :: pystr where
  "ANDROID_NS_STRING = pystr_of ''http://schemas.android.com/apk/res/android''"

definition APPLICATION_STRING :: pystr where
  "APPLICATION_STRING = pystr_of ''application''"

section \<open>Reading\<close>

text \<open>
  \<open>readType\<close> unpacks \<open>n\<close> fields of \<open>typeLen\<close> bytes; it returns the tuple, or its
  only component when \<open>n = 1\<close>: \<open>readInt\<close> and \<open>readByte\<close> are the calls with
  \<open>n = 1\<close>, \<open>readInts\<close> and \<open>readShorts\<close> the others.
\<close>

definition readType :: "in_stream \<Rightarrow> int \<Rightarrow> nat \<Rightarrow> nat \<Rightarrow> error + int list \<times> int" where
  "readType f pos n typeLen =
     bindE (stream_read f pos (int (n * typeLen))) (\<lambda>(bs, pos').
     bindE (unpack (replicate n typeLen) bs) (\<lambda>data. Inr (data, pos')))"

definition readInt :: "in_stream \<Rightarrow> int \<Rightarrow> error + int \<times> int" where
  "readInt f pos = bindE (readType f pos 1 4) (\<lambda>(data, pos'). Inr (data ! 0, pos'))"

definition readInts :: "in_stream \<Rightarrow> int \<Rightarrow> nat \<Rightarrow> error + int list \<times> int" where
  "readInts f pos n = readType f pos n 4"

definition readShorts :: "in_stream \<Rightarrow> int \<Rightarrow> nat \<Rightarrow> error + int list \<times> int" where
  "readShorts f pos n = readType f pos n 2"

definition isInt32NotNegative :: "int \<Rightarrow> bool" where
  "isInt32NotNegative v \<longleftrightarrow> (push_bit 31 1 AND v) = 0"

record commonHeader =
  chunkType :: int
  headerSize :: int
  chunkSize :: int

record chunkInfo =
  startOffset :: int
  commonHeader :: commonHeader

definition readCommonHeader :: "in_stream \<Rightarrow> int \<Rightarrow> error + commonHeader option \<times> int" where
  "readCommonHeader fs pos =
     bindE (stream_read fs pos COMMON_HEADER_LEN) (\<lambda>(data, pos').
       if int (length data) < COMMON_HEADER_LEN then Inr (None, pos')
       else bindE (unpack [2, 2, 4] data) (\<lambda>vs.
         Inr (Some \<lparr>chunkType = vs ! 0, headerSize = vs ! 1, chunkSize = vs ! 2\<rparr>, pos')))"

text \<open>
  The scanning loop of \<open>readChunks\<close>. Nothing bounds the number of its rounds: a header
  with \<open>chunkSize = 0\<close> seeks back to where it was read. Not returning is \<open>None\<close>.
\<close>

partial_function (option) readChunks_loop ::
  "in_stream \<Rightarrow> int \<Rightarrow> chunkInfo list \<Rightarrow> (error + chunkInfo list) option" where
  "readChunks_loop inStream currPos chunk =
     (case readCommonHeader inStream currPos of
        Inl e \<Rightarrow> Some (Inl e)
      | Inr (None, pos') \<Rightarrow> Some (Inr chunk)
      | Inr (Some header, pos') \<Rightarrow>
          (case stream_seek_cur inStream pos' (chunkSize header - COMMON_HEADER_LEN) of
             Inl e \<Rightarrow> Some (Inl e)
           | Inr pos'' \<Rightarrow>
               readChunks_loop inStream pos''
                 (chunk @ [\<lparr>startOffset = currPos, commonHeader = header\<rparr>])))"

definition readChunks :: "in_stream \<Rightarrow> int \<Rightarrow> (error + chunkInfo list) option" where
  "readChunks inStream pos = readChunks_loop inStream pos []"

fun findStringpoolAndResmap_loop ::
  "chunkInfo list \<Rightarrow> int \<Rightarrow> int \<Rightarrow> int \<Rightarrow> error + int \<times> int" where
  "findStringpoolAndResmap_loop [] i stringPoolIdx resmapIdx = Inr (stringPoolIdx, resmapIdx)"
| "findStringpoolAndResmap_loop (chunkInfo # rest) i stringPoolIdx resmapIdx =
     (if chunkType (commonHeader chunkInfo) = CHUNK_TYPE_STRINGPOOL then
        (if stringPoolIdx \<ge> 0 then Inl MoreThanOneStringPool
         else findStringpoolAndResmap_loop rest (i + 1) i resmapIdx)
      else if chunkType (commonHeader chunkInfo) = CHUNK_TYPE_RESMAP then
        (if resmapIdx \<ge> 0 then Inl MoreThanOneResmap
         else findStringpoolAndResmap_loop rest (i + 1) stringPoolIdx i)
      else findStringpoolAndResmap_loop rest (i + 1) stringPoolIdx resmapIdx)"

definition findStringpoolAndResmap :: "chunkInfo list \<Rightarrow> error + int \<times> int" where
  "findStringpoolAndResmap chunks =
     bindE (findStringpoolAndResmap_loop chunks 0 (- 1) (- 1)) (\<lambda>(stringPoolIdx, resmapIdx).
       if stringPoolIdx < 0 then Inl NoStringPool else Inr (stringPoolIdx, resmapIdx))"

record strPoolInfo =
  poolChunkInfo :: chunkInfo
  stringCount :: int
  styleCount :: int
  flags :: int
  stringsStart :: int
  stylesStart :: int
  isUtf8 :: bool

definition decodeStringPoolInfo :: "in_stream \<Rightarrow> chunkInfo \<Rightarrow> error + strPoolInfo" where
  "decodeStringPoolInfo f chunkInfo =
     bindE (stream_seek f (startOffset chunkInfo + COMMON_HEADER_LEN)) (\<lambda>pos.
     bindE (readInts f pos 5) (\<lambda>(vs, pos').
       Inr \<lparr>poolChunkInfo = chunkInfo, stringCount = vs ! 0, styleCount = vs ! 1,
            flags = vs ! 2, stringsStart = vs ! 3, stylesStart = vs ! 4,
            isUtf8 = ((vs ! 2) AND push_bit 8 1 \<noteq> 0)\<rparr>))"

text \<open>
  The resource map as \<open>patchManifest\<close> builds it: the chunk (\<open>None\<close> when the manifest
  has none) and the number of its entries, a floor division that is negative when the
  chunk's \<open>headerSize\<close> exceeds its \<open>chunkSize\<close>.
\<close>

record resmapInfo =
  mapChunkInfo :: "chunkInfo option"
  mapLen :: int

definition calculateResMapLength :: "chunkInfo \<Rightarrow> int" where
  "calculateResMapLength chunkInfo =
     (chunkSize (commonHeader chunkInfo) - headerSize (commonHeader chunkInfo)) div UINT32_LENGTH"

subsection \<open>Decoding text\<close>

text \<open>
  \<open>bytes.decode("utf-8", "replace")\<close>: every ill-formed sequence becomes one U+FFFD and
  decoding goes on behind it. A lead byte whose continuation is wrong is replaced alone (or
  together with the continuation bytes already accepted); a sequence cut off by the end of
  the input is replaced as a whole.
\<close>

definition REPLACEMENT_CHARACTER :: int where
  "REPLACEMENT_CHARACTER = 0xFFFD"

definition is_continuation :: "byte \<Rightarrow> bool" where
  "is_continuation b \<longleftrightarrow> 0x80 \<le> b \<and> b < 0xC0"

definition low6 :: "byte \<Rightarrow> int" where
  "low6 b = uint b AND 0x3F"

fun decode_utf8 :: "byte list \<Rightarrow> pystr" where
  "decode_utf8 [] = []"
| "decode_utf8 (b # bs) =
     (if b < 0x80 then uint b # decode_utf8 bs
      else if b < 0xC2 then REPLACEMENT_CHARACTER # decode_utf8 bs
      else if b < 0xE0 then
        (case bs of
           [] \<Rightarrow> [REPLACEMENT_CHARACTER]
         | c1 # r1 \<Rightarrow>
             if is_continuation c1
             then ((uint b AND 0x1F) * 64 + low6 c1) # decode_utf8 r1
             else REPLACEMENT_CHARACTER # decode_utf8 (c1 # r1))
      else if b < 0xF0 then
        (case bs of
           [] \<Rightarrow> [REPLACEMENT_CHARACTER]
         | c1 # r1 \<Rightarrow>
             if \<not> is_continuation c1 \<or> (b = 0xE0 \<and> c1 < 0xA0) \<or> (b = 0xED \<and> 0xA0 \<le> c1)
             then REPLACEMENT_CHARACTER # decode_utf8 (c1 # r1)
             else
               (case r1 of
                  [] \<Rightarrow> [REPLACEMENT_CHARACTER]
                | c2 # r2 \<Rightarrow>
                    if is_continuation c2
                    then ((uint b AND 0x0F) * 4096 + low6 c1 * 64 + low6 c2) # decode_utf8 r2
                    else REPLACEMENT_CHARACTER # decode_utf8 (c2 # r2)))
      else if b < 0xF5 then
        (case bs of
           [] \<Rightarrow> [REPLACEMENT_CHARACTER]
         | c1 # r1 \<Rightarrow>
             if \<not> is_continuation c1 \<or> (b = 0xF0 \<and> c1 < 0x90) \<or> (b = 0xF4 \<and> 0x90 \<le> c1)
             then REPLACEMENT_CHARACTER # decode_utf8 (c1 # r1)
             else
               (case r1 of
                  [] \<Rightarrow> [REPLACEMENT_CHARACTER]
                | c2 # r2 \<Rightarrow>
                    if \<not> is_continuation c2
                    then REPLACEMENT_CHARACTER # decode_utf8 (c2 # r2)
                    else
                      (case r2 of
                         [] \<Rightarrow> [REPLACEMENT_CHARACTER]
                       | c3 # r3 \<Rightarrow>
                           if is_continuation c3
                           then ((uint b AND 0x07) * 262144 + low6 c1 * 4096
                                   + low6 c2 * 64 + low6 c3) # decode_utf8 r3
                           else REPLACEMENT_CHARACTER # decode_utf8 (c3 # r3))))
      else REPLACEMENT_CHARACTER # decode_utf8 bs)"

text \<open>
  \<open>bytes.decode("utf-16", "replace")\<close>: a byte order mark at the start selects the byte
  order and is dropped; without one the order is that of the host, taken to be little-endian
  here. A surrogate without its partner becomes U+FFFD, and so does a trailing odd byte.
\<close>

fun utf16_units :: "bool \<Rightarrow> byte list \<Rightarrow> int list" where
  "utf16_units big (a # b # rest) =
     (if big then uint a * 256 + uint b else uint a + uint b * 256) # utf16_units big rest"
| "utf16_units big [a] = []"
| "utf16_units big [] = []"

fun utf16_scalars :: "bool \<Rightarrow> int list \<Rightarrow> pystr" where
  "utf16_scalars trailing [] = (if trailing then [REPLACEMENT_CHARACTER] else [])"
| "utf16_scalars trailing (u # us) =
     (if u < 0xD800 \<or> 0xDFFF < u then u # utf16_scalars trailing us
      else if u \<le> 0xDBFF then
        (case us of
           [] \<Rightarrow> [REPLACEMENT_CHARACTER]
         | v # vs \<Rightarrow>
             if 0xDC00 \<le> v \<and> v \<le> 0xDFFF
             then (0x10000 + (u - 0xD800) * 0x400 + (v - 0xDC00)) # utf16_scalars trailing vs
             else REPLACEMENT_CHARACTER # utf16_scalars trailing (v # vs))
      else REPLACEMENT_CHARACTER # utf16_scalars trailing us)"

definition decode_utf16 :: "byte list \<Rightarrow> pystr" where
  "decode_utf16 bs =
     (if take 2 bs = [0xFF, 0xFE] then utf16_scalars (odd (length bs)) (utf16_units False (drop 2 bs))
      else if take 2 bs = [0xFE, 0xFF] then utf16_scalars (odd (length bs)) (utf16_units True (drop 2 bs))
      else utf16_scalars (odd (length bs)) (utf16_units False bs))"

text \<open>
  \<open>decodeLength\<close> returns the length and the number of bytes it took. Its two
  assertions cannot fail: seven (fifteen) bits and a second unit stay below the bound.
\<close>

definition decodeLength :: "in_stream \<Rightarrow> int \<Rightarrow> nat \<Rightarrow> error + (int \<times> int) \<times> int" where
  "decodeLength fs pos sizeof_char =
     (let highbit = push_bit (8 * (sizeof_char - 1)) (0x80 :: int) in
      bindE (stream_read fs pos (int (sizeof_char * 2))) (\<lambda>(bs, pos1).
      bindE (unpack [sizeof_char, sizeof_char] bs) (\<lambda>ls.
      bindE (if (ls ! 0) AND highbit \<noteq> 0
             then Inr ((push_bit (8 * sizeof_char) ((ls ! 0) AND NOT highbit) OR (ls ! 1),
                        int (sizeof_char * 2)), pos1)
             else bindE (stream_seek_cur fs pos1 (- int sizeof_char)) (\<lambda>pos2.
                    Inr ((ls ! 0, int sizeof_char), pos2)))
        (\<lambda>((length, bytesRead), pos3).
           if (if sizeof_char = 1 then length \<le> 0x7FFF else length \<le> 0x7FFFFFFF)
           then Inr ((length, bytesRead), pos3)
           else Inl AssertionError))))"

definition decode8 :: "in_stream \<Rightarrow> int \<Rightarrow> error + (pystr \<times> int) \<times> int" where
  "decode8 fs pos =
     bindE (decodeLength fs pos 1) (\<lambda>((str_len, bytesRead), pos1).
     bindE (decodeLength fs pos1 1) (\<lambda>((strBytes, bytesRead2), pos2).
     bindE (stream_read fs pos2 strBytes) (\<lambda>(raw, pos3).
     bindE (stream_read fs pos3 1) (\<lambda>(terminator, pos4).
       if terminator \<noteq> [0] then Inl StringNotTerminated
       else Inr ((decode_utf8 raw, bytesRead + bytesRead2 + strBytes + 1), pos4)))))"

definition decode16 :: "in_stream \<Rightarrow> int \<Rightarrow> error + (pystr \<times> int) \<times> int" where
  "decode16 fs pos =
     bindE (decodeLength fs pos 2) (\<lambda>((str_len, bytesRead), pos1).
     bindE (stream_read fs pos1 (str_len * 2)) (\<lambda>(raw, pos2).
     bindE (stream_read fs pos2 2) (\<lambda>(terminator, pos3).
       if terminator \<noteq> [0, 0] then Inl StringNotTerminated
       else Inr ((decode_utf16 raw, bytesRead + str_len * 2 + 2), pos3))))"

text \<open>
  \<open>readString\<close> and \<open>readResId\<close> save the position of the stream on entry and seek back
  to it before they return, and what they read depends on absolute offsets only: they are
  functions of the content, and the caller's position is the same after the call.
\<close>

definition readString :: "in_stream \<Rightarrow> strPoolInfo \<Rightarrow> int \<Rightarrow> error + pystr option" where
  "readString f strPoolInfo idx =
     (if \<not> isInt32NotNegative idx \<or> idx \<ge> stringCount strPoolInfo then Inr None
      else
        (let stringOffsetsTableOffset =
               startOffset (poolChunkInfo strPoolInfo)
                 + headerSize (commonHeader (poolChunkInfo strPoolInfo)) in
         bindE (stream_seek f (stringOffsetsTableOffset + idx * UINT32_LENGTH)) (\<lambda>pos1.
         bindE (readInt f pos1) (\<lambda>(stringOffset, pos2).
         bindE (stream_seek f (startOffset (poolChunkInfo strPoolInfo)
                                + stringsStart strPoolInfo + stringOffset)) (\<lambda>pos3.
         bindE (if isUtf8 strPoolInfo then decode8 f pos3 else decode16 f pos3)
           (\<lambda>((strVal, bytesRead), pos4). Inr (Some strVal)))))))"

fun findApplication_loop ::
  "in_stream \<Rightarrow> strPoolInfo \<Rightarrow> chunkInfo list \<Rightarrow> int \<Rightarrow> int \<Rightarrow> error + int" where
  "findApplication_loop f strPoolInfo [] i applicationIdx = Inr applicationIdx"
| "findApplication_loop f strPoolInfo (chunkInfo # rest) i applicationIdx =
     (if chunkType (commonHeader chunkInfo) \<noteq> CHUNK_TYPE_START_ELEMENT
      then findApplication_loop f strPoolInfo rest (i + 1) applicationIdx
      else
        (case bindE (stream_seek f (startOffset chunkInfo
                                     + headerSize (commonHeader chunkInfo) + 4)) (\<lambda>pos.
              bindE (readInt f pos) (\<lambda>(nameId, pos').
              readString f strPoolInfo nameId)) of
           Inl e \<Rightarrow> Inl e
         | Inr name \<Rightarrow>
             if name \<noteq> Some APPLICATION_STRING
             then findApplication_loop f strPoolInfo rest (i + 1) applicationIdx
             else if applicationIdx \<ge> 0 then Inl MultipleApplication
             else findApplication_loop f strPoolInfo rest (i + 1) i))"

definition findApplication :: "in_stream \<Rightarrow> chunkInfo list \<Rightarrow> strPoolInfo \<Rightarrow> error + int" where
  "findApplication f chunks strPoolInfo =
     bindE (findApplication_loop f strPoolInfo chunks 0 (- 1)) (\<lambda>applicationIdx.
       if applicationIdx < 0 then Inl NoApplication else Inr applicationIdx)"

record attribute =
  attrStartOffset :: int
  nsId :: int
  nameId :: int
  rawVal :: int
  attrSize :: int
  dataType :: int
  attrData :: int

fun decodeAttributes_loop ::
  "in_stream \<Rightarrow> nat \<Rightarrow> int \<Rightarrow> attribute list \<Rightarrow> error + attribute list" where
  "decodeAttributes_loop f 0 pos attrs = Inr attrs"
| "decodeAttributes_loop f (Suc n) pos attrs =
     (case stream_read f pos ATTRIBUTE_LENGTH of
        Inl e \<Rightarrow> Inl e
      | Inr (bs, pos') \<Rightarrow>
          (case unpack [4, 4, 4, 2, 1, 1, 4] bs of
             Inl e \<Rightarrow> Inl e
           | Inr vs \<Rightarrow>
               decodeAttributes_loop f n pos'
                 (attrs @ [\<lparr>attrStartOffset = pos, nsId = vs ! 0, nameId = vs ! 1,
                            rawVal = vs ! 2, attrSize = vs ! 3, dataType = vs ! 5,
                            attrData = vs ! 6\<rparr>])))"

definition decodeAttributes :: "in_stream \<Rightarrow> chunkInfo \<Rightarrow> error + attribute list" where
  "decodeAttributes f applicationChunk =
     (let chunkDataStart = startOffset applicationChunk
                             + headerSize (commonHeader applicationChunk) in
      bindE (stream_seek f (chunkDataStart + 8)) (\<lambda>pos.
      bindE (readShorts f pos 6) (\<lambda>(hs, pos').
        if hs ! 1 \<noteq> ATTRIBUTE_LENGTH then Inl AttributeLength
        else bindE (stream_seek f (chunkDataStart + hs ! 0)) (\<lambda>pos''.
               decodeAttributes_loop f (nat (hs ! 2)) pos'' []))))"

text \<open>
  With no resource-map chunk the length is 0, so the index test of \<open>readResId\<close> returns
  before the chunk is looked at; subscripting \<open>None\<close> would be a \<open>TypeError\<close>.
\<close>

definition readResId :: "in_stream \<Rightarrow> resmapInfo \<Rightarrow> int \<Rightarrow> error + int option" where
  "readResId f resmapInfo idx =
     (if idx \<ge> mapLen resmapInfo then Inr None
      else
        (case mapChunkInfo resmapInfo of
           None \<Rightarrow> Inl TypeError
         | Some chunkInfo \<Rightarrow>
             bindE (stream_seek f (startOffset chunkInfo + headerSize (commonHeader chunkInfo)
                                    + idx * UINT32_LENGTH)) (\<lambda>pos.
             bindE (readInt f pos) (\<lambda>(resId, pos'). Inr (Some resId)))))"

fun findDebuggableAttribute_loop ::
  "in_stream \<Rightarrow> strPoolInfo \<Rightarrow> resmapInfo \<Rightarrow> attribute list \<Rightarrow> int \<Rightarrow> error + int" where
  "findDebuggableAttribute_loop f strPoolInfo resmapInfo [] i = Inr (- 1)"
| "findDebuggableAttribute_loop f strPoolInfo resmapInfo (attr # rest) i =
     (case readString f strPoolInfo (nameId attr) of
        Inl e \<Rightarrow> Inl e
      | Inr name \<Rightarrow>
          (case readResId f resmapInfo (nameId attr) of
             Inl e \<Rightarrow> Inl e
           | Inr resId \<Rightarrow>
               if name = Some DEBUGGABLE_STRING \<and> resId = Some DEBUGGABLE_RES_ID then Inr i
               else findDebuggableAttribute_loop f strPoolInfo resmapInfo rest (i + 1)))"

definition findDebuggableAttribute ::
  "in_stream \<Rightarrow> strPoolInfo \<Rightarrow> resmapInfo \<Rightarrow> attribute list \<Rightarrow> error + int" where
  "findDebuggableAttribute f strPoolInfo resmapInfo attrs =
     findDebuggableAttribute_loop f strPoolInfo resmapInfo attrs 0"

section \<open>Writing\<close>

text \<open>
  The output stream is only ever appended to: it is the list of the bytes written so far.
  A rewriting function threads the pair of the input position and the output.
  \<open>copy f n\<close> is \<open>fOut.write(f.read(n))\<close>.
\<close>

type_synonym pstate = "int \<times> byte list"

definition copy :: "in_stream \<Rightarrow> int \<Rightarrow> pstate \<Rightarrow> error + pstate" where
  "copy f n st = bindE (stream_read f (fst st) n) (\<lambda>(bs, pos'). Inr (pos', snd st @ bs))"

definition writeCommonHeader :: "byte list \<Rightarrow> int \<Rightarrow> int \<Rightarrow> int \<Rightarrow> error + byte list" where
  "writeCommonHeader fOut type hSize cSize =
     bindE (pack [2, 2, 4] [type, hSize, cSize]) (\<lambda>bs. Inr (fOut @ bs))"

definition patchStringRef :: "in_stream \<Rightarrow> int \<Rightarrow> pstate \<Rightarrow> error + pstate" where
  "patchStringRef fIn cmp st =
     bindE (readInt fIn (fst st)) (\<lambda>(n, pos').
     bindE (pack [4] [if n \<noteq> 0xFFFFFFFF \<and> n \<ge> cmp then n + 1 else n]) (\<lambda>bs.
       Inr (pos', snd st @ bs)))"

fun patchStringPool_offsets :: "in_stream \<Rightarrow> int \<Rightarrow> nat \<Rightarrow> pstate \<Rightarrow> error + pstate" where
  "patchStringPool_offsets f debuggableStrLength 0 st = Inr st"
| "patchStringPool_offsets f debuggableStrLength (Suc n) st =
     (case readInt f (fst st) of
        Inl e \<Rightarrow> Inl e
      | Inr (v, pos') \<Rightarrow>
          (case pack [4] [v + debuggableStrLength] of
             Inl e \<Rightarrow> Inl e
           | Inr bs \<Rightarrow> patchStringPool_offsets f debuggableStrLength n (pos', snd st @ bs)))"

text \<open>
  The loop over the style records. Its body reads three integers and hands the tuple to
  \<open>unpack\<close> as the only argument; \<open>struct.unpack\<close> takes two, so the call raises
  \<open>TypeError\<close> and the statements behind it (the comparison with the insertion index, the
  increment and the write) are never reached.
\<close>

fun patchStringPool_styles :: "in_stream \<Rightarrow> int \<Rightarrow> nat \<Rightarrow> pstate \<Rightarrow> error + pstate" where
  "patchStringPool_styles f insertionIdx 0 st = Inr st"
| "patchStringPool_styles f insertionIdx (Suc n) st =
     (case readInts f (fst st) 3 of
        Inl e \<Rightarrow> Inl e
      | Inr (vs, pos') \<Rightarrow> Inl TypeError)"

definition patchStringPool ::
  "in_stream \<Rightarrow> strPoolInfo \<Rightarrow> byte list \<Rightarrow> int \<Rightarrow> error + byte list" where
  "patchStringPool f strPoolInfo fOut insertionIdx =
     (let header = commonHeader (poolChunkInfo strPoolInfo);
          start = startOffset (poolChunkInfo strPoolInfo);
          debuggableStrLength = (if isUtf8 strPoolInfo then DEBUGGABLE_STRING_LENGTH_UTF8
                                 else DEBUGGABLE_STRING_LENGTH_UTF16);
          newStrCount = stringCount strPoolInfo + 1;
          newStringsStart = stringsStart strPoolInfo + UINT32_LENGTH;
          newStylesStart = (if styleCount strPoolInfo > 0
                            then stylesStart strPoolInfo + UINT32_LENGTH + debuggableStrLength
                            else 0);
          newChunkSize = chunkSize header + debuggableStrLength + UINT32_LENGTH in
      bindE (stream_seek f (start + COMMON_HEADER_LEN)) (\<lambda>pos0.
      bindE (writeCommonHeader fOut (chunkType header) (headerSize header) newChunkSize) (\<lambda>out1.
      bindE (pack [4, 4, 4, 4, 4] [newStrCount, styleCount strPoolInfo, flags strPoolInfo,
                                   newStringsStart, newStylesStart]) (\<lambda>b2.
      bindE (stream_seek f (start + headerSize header)) (\<lambda>pos1.
      bindE (copy f (insertionIdx * UINT32_LENGTH) (pos1, out1 @ b2)) (\<lambda>st2.
      bindE (readInt f (fst st2)) (\<lambda>(insertionStringsOffset, pos3).
      bindE (pack [4] [insertionStringsOffset]) (\<lambda>b3.
      bindE (pack [4] [insertionStringsOffset + debuggableStrLength]) (\<lambda>b4.
      bindE (patchStringPool_offsets f debuggableStrLength
               (nat (stringCount strPoolInfo - (insertionIdx + 1)))
               (pos3, snd st2 @ b3 @ b4)) (\<lambda>st5.
        if fst st5 \<noteq> start + headerSize header + UINT32_LENGTH * stringCount strPoolInfo
        then Inl SanityCheck
        else
      bindE (if styleCount strPoolInfo > 0
             then copy f (styleCount strPoolInfo * UINT32_LENGTH) st5 else Inr st5) (\<lambda>st6.
      bindE (copy f (start + stringsStart strPoolInfo - fst st6) st6) (\<lambda>st7.
      bindE (copy f insertionStringsOffset st7) (\<lambda>st8.
      bindE (Inr (fst st8, snd st8 @ (if isUtf8 strPoolInfo then DEBUGGABLE_STRING_DATA_UTF8
                                      else DEBUGGABLE_STRING_DATA_UTF16))) (\<lambda>st9.
      bindE (if styleCount strPoolInfo > 0
             then bindE (copy f (start + stylesStart strPoolInfo - fst st9) st9)
                    (patchStringPool_styles f insertionIdx (nat (styleCount strPoolInfo)))
             else Inr st9) (\<lambda>st10.
      bindE (copy f (start + chunkSize header - fst st10) st10) (\<lambda>st11.
        Inr (snd st11)))))))))))))))))"

definition patchResmap :: "in_stream \<Rightarrow> resmapInfo \<Rightarrow> byte list \<Rightarrow> error + byte list" where
  "patchResmap f resmapInfo fOut =
     (case mapChunkInfo resmapInfo of
        None \<Rightarrow> Inl TypeError
      | Some chunkInfo \<Rightarrow>
          bindE (stream_seek f (startOffset chunkInfo + COMMON_HEADER_LEN)) (\<lambda>pos.
          bindE (writeCommonHeader fOut (chunkType (commonHeader chunkInfo))
                   (headerSize (commonHeader chunkInfo))
                   (chunkSize (commonHeader chunkInfo) + UINT32_LENGTH)) (\<lambda>out1.
          bindE (copy f (chunkSize (commonHeader chunkInfo) - COMMON_HEADER_LEN) (pos, out1)) (\<lambda>st.
          bindE (pack [4] [DEBUGGABLE_RES_ID]) (\<lambda>bs. Inr (snd st @ bs))))))"

definition injectResmap :: "byte list \<Rightarrow> error + byte list" where
  "injectResmap fOut =
     bindE (writeCommonHeader fOut CHUNK_TYPE_RESMAP COMMON_HEADER_LEN
              (COMMON_HEADER_LEN + UINT32_LENGTH)) (\<lambda>out1.
     bindE (pack [4] [DEBUGGABLE_RES_ID]) (\<lambda>bs. Inr (out1 @ bs)))"

definition patchNode :: "in_stream \<Rightarrow> int \<Rightarrow> pstate \<Rightarrow> error + pstate" where
  "patchNode fIn debuggableStringId st =
     bindE (copy fIn UINT32_LENGTH st) (patchStringRef fIn debuggableStringId)"

definition patchCDataExt :: "in_stream \<Rightarrow> int \<Rightarrow> pstate \<Rightarrow> error + pstate" where
  "patchCDataExt fIn debuggableStringId st =
     bindE (patchStringRef fIn debuggableStringId st) (copy fIn (2 * UINT32_LENGTH))"

definition patchNamespaceExt :: "in_stream \<Rightarrow> int \<Rightarrow> pstate \<Rightarrow> error + pstate" where
  "patchNamespaceExt fIn debuggableStringId st =
     bindE (patchStringRef fIn debuggableStringId st) (patchStringRef fIn debuggableStringId)"

definition patchEndElementExt :: "in_stream \<Rightarrow> int \<Rightarrow> pstate \<Rightarrow> error + pstate" where
  "patchEndElementExt fIn debuggableStringId st =
     bindE (patchStringRef fIn debuggableStringId st) (patchStringRef fIn debuggableStringId)"

definition patchAttribute :: "in_stream \<Rightarrow> int \<Rightarrow> pstate \<Rightarrow> error + pstate" where
  "patchAttribute fIn debuggableStringId st =
     bindE (patchStringRef fIn debuggableStringId st) (\<lambda>st1.
     bindE (patchStringRef fIn debuggableStringId st1) (\<lambda>st2.
     bindE (patchStringRef fIn debuggableStringId st2) (\<lambda>st3.
     bindE (stream_read fIn (fst st3) 4) (\<lambda>(bs, pos').
     bindE (unpack [2, 1, 1] bs) (\<lambda>vs.
     bindE (pack [2, 1, 1] vs) (\<lambda>b.
       if vs ! 2 = 0x03 then patchStringRef fIn debuggableStringId (pos', snd st3 @ b)
       else copy fIn UINT32_LENGTH (pos', snd st3 @ b)))))))"

fun patchAttribute_times :: "in_stream \<Rightarrow> int \<Rightarrow> nat \<Rightarrow> pstate \<Rightarrow> error + pstate" where
  "patchAttribute_times fIn debuggableStringId 0 st = Inr st"
| "patchAttribute_times fIn debuggableStringId (Suc n) st =
     (case patchAttribute fIn debuggableStringId st of
        Inl e \<Rightarrow> Inl e
      | Inr st' \<Rightarrow> patchAttribute_times fIn debuggableStringId n st')"

definition patchAttrExt :: "in_stream \<Rightarrow> chunkInfo \<Rightarrow> int \<Rightarrow> pstate \<Rightarrow> error + pstate" where
  "patchAttrExt fIn chunkInfo debuggableStringId st =
     (let start = startOffset chunkInfo;
          end = start + chunkSize (commonHeader chunkInfo) in
      bindE (patchStringRef fIn debuggableStringId st) (\<lambda>st1.
      bindE (patchStringRef fIn debuggableStringId st1) (\<lambda>st2.
      bindE (readShorts fIn (fst st2) 3) (\<lambda>(hs, pos').
      bindE (pack [2, 2, 2] hs) (\<lambda>b.
      bindE (copy fIn (UINT16_LENGTH * 3) (pos', snd st2 @ b)) (\<lambda>st3.
      bindE (copy fIn (start + headerSize (commonHeader chunkInfo) + hs ! 0 - fst st3) st3) (\<lambda>st4.
      bindE (patchAttribute_times fIn debuggableStringId (nat (hs ! 2)) st4) (\<lambda>st5.
        copy fIn (end - fst st5) st5))))))))"

definition patchChunk :: "in_stream \<Rightarrow> chunkInfo \<Rightarrow> byte list \<Rightarrow> int \<Rightarrow> error + byte list" where
  "patchChunk f chunkInfo fOut debuggableStringId =
     (let type = chunkType (commonHeader chunkInfo) in
      bindE (stream_seek f (startOffset chunkInfo)) (\<lambda>pos.
      bindE (copy f COMMON_HEADER_LEN (pos, fOut)) (\<lambda>st.
      bindE (if type \<ge> 0x0100 \<and> type \<le> 0x17f then
               bindE (patchNode f debuggableStringId st) (\<lambda>st1.
                 if type = 0x100 \<or> type = 0x101 then patchNamespaceExt f debuggableStringId st1
                 else if type = 0x102 then patchAttrExt f chunkInfo debuggableStringId st1
                 else if type = 0x103 then patchEndElementExt f debuggableStringId st1
                 else if type = 0x104 then patchCDataExt f debuggableStringId st1
                 else copy f (chunkSize (commonHeader chunkInfo)
                               - headerSize (commonHeader chunkInfo)) st1)
             else copy f (chunkSize (commonHeader chunkInfo) - COMMON_HEADER_LEN) st) (\<lambda>st'.
        Inr (snd st')))))"

text \<open>
  The record of the new attribute: \<open>0x12000008\<close> is, in little-endian order, the size 8,
  the reserved byte 0 and the data type \<open>0x12\<close>.
\<close>

definition debuggableAttribute :: "int \<Rightarrow> int \<Rightarrow> error + byte list" where
  "debuggableAttribute androidNsId debuggableStringId =
     pack [4, 4, 4, 4, 4] [androidNsId, debuggableStringId, 0xFFFFFFFF, 0x12000008, 0xFFFFFFFF]"

text \<open>
  The loop of \<open>patchApplicationAttributes\<close>. The comparison
  \<open>readResId(...) > DEBUGGABLE_RES_ID\<close> is evaluated before \<open>not inserted\<close>, for every
  attribute; when \<open>readResId\<close> returns \<open>None\<close> the comparison of \<open>None\<close> with an
  integer raises \<open>TypeError\<close>.
\<close>

fun patchApplicationAttributes_loop ::
  "in_stream \<Rightarrow> resmapInfo \<Rightarrow> int \<Rightarrow> int \<Rightarrow> nat \<Rightarrow> bool \<Rightarrow> pstate \<Rightarrow> error + bool \<times> pstate" where
  "patchApplicationAttributes_loop fIn resmapInfo debuggableStringId androidNsId 0 inserted st =
     Inr (inserted, st)"
| "patchApplicationAttributes_loop fIn resmapInfo debuggableStringId androidNsId (Suc n) inserted st =
     (case stream_seek_cur fIn (fst st) UINT32_LENGTH of
        Inl e \<Rightarrow> Inl e
      | Inr pos1 \<Rightarrow>
     (case readInt fIn pos1 of
        Inl e \<Rightarrow> Inl e
      | Inr (name, pos2) \<Rightarrow>
     (case readResId fIn resmapInfo name of
        Inl e \<Rightarrow> Inl e
      | Inr None \<Rightarrow> Inl TypeError
      | Inr (Some resId) \<Rightarrow>
     (case (if resId > DEBUGGABLE_RES_ID \<and> \<not> inserted
            then bindE (debuggableAttribute androidNsId debuggableStringId) (\<lambda>b.
                   Inr (True, snd st @ b))
            else Inr (inserted, snd st)) of
        Inl e \<Rightarrow> Inl e
      | Inr (inserted', out') \<Rightarrow>
     (case stream_seek_cur fIn pos2 (- 2 * UINT32_LENGTH) of
        Inl e \<Rightarrow> Inl e
      | Inr pos3 \<Rightarrow>
     (case patchAttribute fIn debuggableStringId (pos3, out') of
        Inl e \<Rightarrow> Inl e
      | Inr st' \<Rightarrow>
          patchApplicationAttributes_loop fIn resmapInfo debuggableStringId androidNsId
            n inserted' st'))))))"

definition patchApplicationAttributes ::
  "in_stream \<Rightarrow> pstate \<Rightarrow> int \<Rightarrow> resmapInfo \<Rightarrow> int \<Rightarrow> int \<Rightarrow> error + pstate" where
  "patchApplicationAttributes fIn st attrCount resmapInfo debuggableStringId androidNsId =
     bindE (patchApplicationAttributes_loop fIn resmapInfo debuggableStringId androidNsId
              (nat attrCount) False st) (\<lambda>(inserted, st').
       if \<not> inserted
       then bindE (debuggableAttribute androidNsId debuggableStringId) (\<lambda>b.
              Inr (fst st', snd st' @ b))
       else Inr st')"

definition patchApplicationElement ::
  "in_stream \<Rightarrow> chunkInfo \<Rightarrow> int \<Rightarrow> int \<Rightarrow> byte list \<Rightarrow> resmapInfo \<Rightarrow> error + byte list" where
  "patchApplicationElement fIn chunkInfo androidNsId debuggableStringId fOut resmapInfo =
     (let start = startOffset chunkInfo;
          hSize = headerSize (commonHeader chunkInfo);
          newChunkSize = chunkSize (commonHeader chunkInfo) + ATTRIBUTE_LENGTH in
      bindE (stream_seek fIn (start + COMMON_HEADER_LEN)) (\<lambda>pos.
      bindE (writeCommonHeader fOut (chunkType (commonHeader chunkInfo)) hSize newChunkSize) (\<lambda>out1.
      bindE (patchNode fIn debuggableStringId (pos, out1)) (\<lambda>st1.
      bindE (patchStringRef fIn debuggableStringId st1) (\<lambda>st2.
      bindE (patchStringRef fIn debuggableStringId st2) (\<lambda>st3.
      bindE (readShorts fIn (fst st3) 3) (\<lambda>(hs, pos').
      bindE (pack [2, 2, 2] [hs ! 0, hs ! 1, hs ! 2 + 1]) (\<lambda>b.
      bindE (copy fIn (UINT16_LENGTH * 3) (pos', snd st3 @ b)) (\<lambda>st4.
      bindE (copy fIn (start + hSize + hs ! 0 - fst st4) st4) (\<lambda>st5.
      bindE (patchApplicationAttributes fIn st5 (hs ! 2) resmapInfo debuggableStringId
               androidNsId) (\<lambda>st6.
      bindE (copy fIn (start + chunkSize (commonHeader chunkInfo) - fst st6) st6) (\<lambda>st7.
        Inr (snd st7)))))))))))))"

fun findAndroidNsIdx_loop :: "in_stream \<Rightarrow> strPoolInfo \<Rightarrow> int list \<Rightarrow> error + int" where
  "findAndroidNsIdx_loop fIn strPoolInfo [] = Inl NoAndroidNs"
| "findAndroidNsIdx_loop fIn strPoolInfo (i # rest) =
     (case readString fIn strPoolInfo i of
        Inl e \<Rightarrow> Inl e
      | Inr s \<Rightarrow>
          if s = Some ANDROID_NS_STRING then Inr i
          else findAndroidNsIdx_loop fIn strPoolInfo rest)"

definition findAndroidNsIdx :: "in_stream \<Rightarrow> strPoolInfo \<Rightarrow> error + int" where
  "findAndroidNsIdx fIn strPoolInfo =
     findAndroidNsIdx_loop fIn strPoolInfo [0 ..  stringCount strPoolInfo - 1]"

section \<open>patchManifest\<close>

text \<open>
  What \<open>patchManifest\<close> has found out about its input when it chooses between the two
  paths: the local variables of the function at that point.
\<close>

record analysis =
  a_fileHeader :: commonHeader
  a_chunks :: "chunkInfo list"
  a_stringPoolIdx :: int
  a_resmapIdx :: int
  a_strPoolInfo :: strPoolInfo
  a_resmapInfo :: resmapInfo
  a_applicationIdx :: int
  a_applicationAttributes :: "attribute list"
  a_debuggableAttributeIdx :: int

text \<open>
  The first statements of \<open>patchManifest\<close>, on a stream at position 0: the file header
  (subscripting the \<open>None\<close> that a file of fewer than eight bytes gives is a
  \<open>TypeError\<close>) and the scan of the chunks, which may not return.
\<close>

definition patchManifest_scan ::
  "in_stream \<Rightarrow> (error + commonHeader \<times> chunkInfo list) option" where
  "patchManifest_scan fIn =
     (case readCommonHeader fIn 0 of
        Inl e \<Rightarrow> Some (Inl e)
      | Inr (None, pos) \<Rightarrow> Some (Inl TypeError)
      | Inr (Some fileHeader, pos) \<Rightarrow>
          if headerSize fileHeader \<noteq> COMMON_HEADER_LEN then Some (Inl FileHeaderSize)
          else (case readChunks fIn pos of
                  None \<Rightarrow> None
                | Some (Inl e) \<Rightarrow> Some (Inl e)
                | Some (Inr chunks) \<Rightarrow> Some (Inr (fileHeader, chunks))))"

text \<open>
  From the chunk list to the index of the debuggable attribute. \<open>resmapIdx\<close> is \<open>-1\<close>
  or an index, so one of the two assignments of \<open>resmapInfo\<close> always runs.
\<close>

definition patchManifest_decode ::
  "in_stream \<Rightarrow> commonHeader \<Rightarrow> chunkInfo list \<Rightarrow> error + analysis" where
  "patchManifest_decode fIn fileHeader chunks =
     bindE (findStringpoolAndResmap chunks) (\<lambda>(stringPoolIdx, resmapIdx).
     bindE (decodeStringPoolInfo fIn (chunks ! nat stringPoolIdx)) (\<lambda>strPoolInfo.
     bindE (if resmapIdx = - 1 then Inr \<lparr>mapChunkInfo = None, mapLen = 0\<rparr>
            else if resmapIdx \<ge> 0
            then Inr \<lparr>mapChunkInfo = Some (chunks ! nat resmapIdx),
                      mapLen = calculateResMapLength (chunks ! nat resmapIdx)\<rparr>
            else Inl UnboundLocalError) (\<lambda>resmapInfo.
     bindE (findApplication fIn chunks strPoolInfo) (\<lambda>applicationIdx.
     bindE (decodeAttributes fIn (chunks ! nat applicationIdx)) (\<lambda>applicationAttributes.
     bindE (findDebuggableAttribute fIn strPoolInfo resmapInfo applicationAttributes)
       (\<lambda>debuggableAttributeIdx.
         Inr \<lparr>a_fileHeader = fileHeader, a_chunks = chunks, a_stringPoolIdx = stringPoolIdx,
              a_resmapIdx = resmapIdx, a_strPoolInfo = strPoolInfo,
              a_resmapInfo = resmapInfo, a_applicationIdx = applicationIdx,
              a_applicationAttributes = applicationAttributes,
              a_debuggableAttributeIdx = debuggableAttributeIdx\<rparr>))))))"

text \<open>The fast path: the file is copied with the data word of the attribute overwritten.\<close>

definition patchManifest_fast :: "in_stream \<Rightarrow> analysis \<Rightarrow> error + byte list" where
  "patchManifest_fast fIn a =
     (let debuggableValueAbsoluteOffset =
            attrStartOffset (a_applicationAttributes a ! nat (a_debuggableAttributeIdx a)) + 16 in
      bindE (stream_seek fIn 0) (\<lambda>pos0.
      bindE (copy fIn debuggableValueAbsoluteOffset (pos0, [])) (\<lambda>st1.
      bindE (stream_seek_cur fIn (fst st1) 4) (\<lambda>pos2.
      bindE (copy fIn (- 1) (pos2, snd st1 @ DEBUGGABLE_VALUE_TRUE)) (\<lambda>st3.
        Inr (snd st3))))))"

text \<open>
  One round of the rebuilding loop for a chunk that is rewritten (the branches of the
  \<open>elif\<close> chain), and the loop itself. In the branch that injects the resource map the
  counter is decremented and then incremented: the next round sees the same \<open>i\<close>.
\<close>

definition patchManifest_chunk :: "in_stream \<Rightarrow> analysis \<Rightarrow> int \<Rightarrow> int \<Rightarrow> int \<Rightarrow> byte list \<Rightarrow> error + byte list" where
  "patchManifest_chunk fIn a androidNsId debuggableStringId i fOut =
     (if i = a_stringPoolIdx a
      then patchStringPool fIn (a_strPoolInfo a) fOut debuggableStringId
      else if i = a_resmapIdx a
      then patchResmap fIn (a_resmapInfo a) fOut
      else if i = a_applicationIdx a
      then patchApplicationElement fIn (a_chunks a ! nat i) androidNsId debuggableStringId fOut
             (a_resmapInfo a)
      else patchChunk fIn (a_chunks a ! nat i) fOut debuggableStringId)"

partial_function (option) patchManifest_loop ::
  "in_stream \<Rightarrow> analysis \<Rightarrow> int \<Rightarrow> int \<Rightarrow> int \<Rightarrow> byte list \<Rightarrow> (error + byte list) option" where
  "patchManifest_loop fIn a androidNsId debuggableStringId i fOut =
     (if \<not> i < int (length (a_chunks a)) then Some (Inr fOut)
      else if i = a_stringPoolIdx a + 1 \<and> a_resmapIdx a < 0 then
        (case injectResmap fOut of
           Inl e \<Rightarrow> Some (Inl e)
         | Inr fOut' \<Rightarrow> patchManifest_loop fIn a androidNsId debuggableStringId (i - 1 + 1) fOut')
      else
        (case patchManifest_chunk fIn a androidNsId debuggableStringId i fOut of
           Inl e \<Rightarrow> Some (Inl e)
         | Inr fOut' \<Rightarrow> patchManifest_loop fIn a androidNsId debuggableStringId (i + 1) fOut'))"

definition totalSizeIncrement :: "analysis \<Rightarrow> int" where
  "totalSizeIncrement a =
     (if isUtf8 (a_strPoolInfo a) then DEBUGGABLE_STRING_LENGTH_UTF8
      else DEBUGGABLE_STRING_LENGTH_UTF16)
     + UINT32_LENGTH + UINT32_LENGTH
     + (if a_resmapIdx a = - 1 then COMMON_HEADER_LEN else 0)
     + ATTRIBUTE_LENGTH"

definition patchManifest_slow :: "in_stream \<Rightarrow> analysis \<Rightarrow> (error + byte list) option" where
  "patchManifest_slow fIn a =
     (case writeCommonHeader [] (chunkType (a_fileHeader a)) (headerSize (a_fileHeader a))
             (chunkSize (a_fileHeader a) + totalSizeIncrement a) of
        Inl e \<Rightarrow> Some (Inl e)
      | Inr fOut \<Rightarrow>
          (case findAndroidNsIdx fIn (a_strPoolInfo a) of
             Inl e \<Rightarrow> Some (Inl e)
           | Inr androidNsId \<Rightarrow>
               patchManifest_loop fIn a
                 (if androidNsId \<ge> mapLen (a_resmapInfo a) then androidNsId + 1 else androidNsId)
                 (mapLen (a_resmapInfo a)) 0 fOut))"

definition patchManifest_analysis :: "in_stream \<Rightarrow> (error + analysis) option" where
  "patchManifest_analysis fIn =
     (case patchManifest_scan fIn of
        None \<Rightarrow> None
      | Some (Inl e) \<Rightarrow> Some (Inl e)
      | Some (Inr (fileHeader, chunks)) \<Rightarrow> Some (patchManifest_decode fIn fileHeader chunks))"

text \<open>
  \<open>patchManifest fIn\<close> is the content of the output stream when the function returns, the
  exception it raises, or \<open>None\<close> when it does not return. The output stream is empty
  when the function is called, as it is at each of its call sites.
\<close>

definition patchManifest :: "in_stream \<Rightarrow> (error + byte list) option" where
  "patchManifest fIn =
     (case patchManifest_analysis fIn of
        None \<Rightarrow> None
      | Some (Inl e) \<Rightarrow> Some (Inl e)
      | Some (Inr a) \<Rightarrow>
          if a_debuggableAttributeIdx a \<ge> 0 then Some (patchManifest_fast fIn a)
          else patchManifest_slow fIn a)"

text \<open>
  \<open>patchManifestByFilename\<close> over a file system that maps a path to the content of the
  file there. The result is the exception (if any), the file system afterwards and the
  files opened, in order; \<open>None\<close> when the call does not return.
\<close>

datatype fs_event = OpenRead string | OpenWrite string

type_synonym file_system = "string \<rightharpoonup> byte list"

definition patchManifestByFilename ::
  "file_system \<Rightarrow> string \<Rightarrow> string \<Rightarrow> (error option \<times> file_system \<times> fs_event list) option" where
  "patchManifestByFilename files fnIn fnOut =
     (case files fnIn of
        None \<Rightarrow> Some (Some FileNotFoundError, files, [])
      | Some bytes \<Rightarrow>
          (case patchManifest \<lparr>kind = BufferedFile, content = bytes\<rparr> of
             None \<Rightarrow> None
           | Some (Inl e) \<Rightarrow> Some (Some e, files, [OpenRead fnIn])
           | Some (Inr tmp) \<Rightarrow>
               Some (None, (files(fnOut \<mapsto> []))(fnOut \<mapsto> tmp), [OpenRead fnIn, OpenWrite fnOut])))"

section \<open>The two loops as total functions\<close>

text \<open>
  The scan makes progress exactly when the header it has read has a \<open>chunkSize\<close> other
  than 0. \<open>scanChunks\<close> is the scanning loop with that test added: it recurses on a
  position further on, so it is total, and it answers \<open>None\<close> where the loop of the
  source reads the same header again.
\<close>

function scanChunks :: "in_stream \<Rightarrow> int \<Rightarrow> chunkInfo list \<Rightarrow> (error + chunkInfo list) option" where
  "scanChunks inStream currPos chunk =
     (case readCommonHeader inStream currPos of
        Inl e \<Rightarrow> Some (Inl e)
      | Inr (None, pos') \<Rightarrow> Some (Inr chunk)
      | Inr (Some header, pos') \<Rightarrow>
          (case stream_seek_cur inStream pos' (chunkSize header - COMMON_HEADER_LEN) of
             Inl e \<Rightarrow> Some (Inl e)
           | Inr pos'' \<Rightarrow>
               if pos'' \<le> currPos then None
               else scanChunks inStream pos''
                      (chunk @ [\<lparr>startOffset = currPos, commonHeader = header\<rparr>])))"
  by pat_completeness auto
termination
proof (relation "measure (\<lambda>(inStream, currPos, chunk). nat (stream_size inStream - currPos))")
  show "wf (measure (\<lambda>(inStream, currPos, chunk). nat (stream_size inStream - currPos)))"
    by simp
next
  fix inStream :: in_stream and currPos :: int and chunk :: "chunkInfo list"
    and x2 x y header pos' pos''
  assume rd: "readCommonHeader inStream currPos = Inr x2" and x2: "(x, y) = x2"
    and x: "x = Some header"
    and "stream_seek_cur inStream y (chunkSize header - COMMON_HEADER_LEN) = Inr pos''"
    and progress: "\<not> pos'' \<le> currPos"
  from rd x2 x have "8 \<le> length (drop (nat currPos) (content inStream))"
    by (auto simp: readCommonHeader_def stream_read_def bindE_def COMMON_HEADER_LEN_def Let_def
          split: if_splits)
  then have "currPos < stream_size inStream"
    by (simp add: stream_size_def)
  with progress
  show "((inStream, pos'', chunk @ [\<lparr>startOffset = currPos, commonHeader = header\<rparr>]),
         (inStream, currPos, chunk))
        \<in> measure (\<lambda>(inStream, currPos, chunk). nat (stream_size inStream - currPos))"
    by simp
qed

text \<open>The rebuilding loop over the chunks \<open>i, i + 1, \<dots>\<close> without the injecting branch.\<close>

fun patchManifest_chunks ::
  "in_stream \<Rightarrow> analysis \<Rightarrow> int \<Rightarrow> int \<Rightarrow> int list \<Rightarrow> byte list \<Rightarrow> error + byte list" where
  "patchManifest_chunks fIn a androidNsId debuggableStringId [] fOut = Inr fOut"
| "patchManifest_chunks fIn a androidNsId debuggableStringId (i # rest) fOut =
     (case patchManifest_chunk fIn a androidNsId debuggableStringId i fOut of
        Inl e \<Rightarrow> Inl e
      | Inr fOut' \<Rightarrow> patchManifest_chunks fIn a androidNsId debuggableStringId rest fOut')"

section \<open>Notions for the proofs\<close>

text \<open>
  Every attribute that \<open>decodeAttributes\<close> returns was unpacked from twenty bytes that the
  stream holds at the attribute's offset.
\<close>

definition attribute_at :: "in_stream \<Rightarrow> attribute \<Rightarrow> bool" where
  "attribute_at f attr \<longleftrightarrow>
     0 \<le> attrStartOffset attr
     \<and> nat (attrStartOffset attr) + 20 \<le> length (content f)
     \<and> (let vs = split_fields [4, 4, 4, 2, 1, 1, 4]
                   (take 20 (drop (nat (attrStartOffset attr)) (content f)))
        in nsId attr = vs ! 0 \<and> nameId attr = vs ! 1 \<and> rawVal attr = vs ! 2
           \<and> attrSize attr = vs ! 3 \<and> dataType attr = vs ! 5 \<and> attrData attr = vs ! 6)"


section \<open>Example manifests\<close>

text \<open>
  Small manifests, put together chunk by chunk. A string-pool entry in UTF-8 is the length in
  UTF-16 units, the length in bytes, the bytes and a zero byte; the offset table lists where
  each entry starts in the blob.
\<close>

definition u16 :: "int \<Rightarrow> byte list" where "u16 = le_bytes 2"
definition u32 :: "int \<Rightarrow> byte list" where "u32 = le_bytes 4"

definition utf8_entry :: "string \<Rightarrow> byte list" where
  "utf8_entry s = [of_nat (length s), of_nat (length s)] @ map of_char s @ [0]"

fun entry_offsets :: "int \<Rightarrow> byte list list \<Rightarrow> int list" where
  "entry_offsets off [] = []"
| "entry_offsets off (e # es) = off # entry_offsets (off + int (length e)) es"

text \<open>A string-pool chunk without styles: header of 28 bytes, offset table, blob.\<close>

definition mk_pool :: "int \<Rightarrow> byte list list \<Rightarrow> byte list" where
  "mk_pool poolFlags entries =
     u16 0x0001 @ u16 28 @ u32 (28 + 4 * int (length entries) + int (length (concat entries)))
     @ u32 (int (length entries)) @ u32 0 @ u32 poolFlags
     @ u32 (28 + 4 * int (length entries)) @ u32 0
     @ concat (map u32 (entry_offsets 0 entries)) @ concat entries"

definition mk_resmap :: "int list \<Rightarrow> byte list" where
  "mk_resmap ids = u16 0x0180 @ u16 8 @ u32 (8 + 4 * int (length ids)) @ concat (map u32 ids)"

definition mk_attr :: "int \<Rightarrow> int \<Rightarrow> int \<Rightarrow> int \<Rightarrow> int \<Rightarrow> byte list" where
  "mk_attr ns name raw type val = u32 ns @ u32 name @ u32 raw @ u16 8 @ [0, word_of_int type] @ u32 val"

text \<open>A start element without namespace: line 1, no comment, the attributes at offset 20.\<close>

definition mk_start_element :: "int \<Rightarrow> byte list list \<Rightarrow> byte list" where
  "mk_start_element name attrs =
     u16 0x0102 @ u16 16 @ u32 (36 + 20 * int (length attrs))
     @ u32 1 @ u32 0xFFFFFFFF @ u32 0xFFFFFFFF @ u32 name
     @ u16 20 @ u16 20 @ u16 (int (length attrs)) @ u16 0 @ u16 0 @ u16 0
     @ concat attrs"

definition mk_end_element :: "int \<Rightarrow> byte list" where
  "mk_end_element name =
     u16 0x0103 @ u16 16 @ u32 24 @ u32 1 @ u32 0xFFFFFFFF @ u32 0xFFFFFFFF @ u32 name"

definition mk_manifest :: "byte list list \<Rightarrow> byte list" where
  "mk_manifest cs = u16 0x0003 @ u16 8 @ u32 (8 + int (length (concat cs))) @ concat cs"

definition NS :: string where
  "NS = ''http://schemas.android.com/apk/res/android''"

text \<open>
  An application element that carries \<open>android:debuggable\<close>, with the resource id in the
  resource map, typed as an integer (\<open>0x10\<close>) with the value 0.
\<close>

definition manifest_int_debuggable :: "byte list" where
  "manifest_int_debuggable =
     mk_manifest
       [mk_pool 0x100 [utf8_entry ''debuggable'', utf8_entry NS, utf8_entry ''application''],
        mk_resmap [0x0101000f],
        mk_start_element 2 [mk_attr 1 0 0xFFFFFFFF 0x10 0],
        mk_end_element 2]"

text \<open>The same element with the attribute already true.\<close>

definition manifest_debuggable_true :: "byte list" where
  "manifest_debuggable_true =
     mk_manifest
       [mk_pool 0x100 [utf8_entry ''debuggable'', utf8_entry NS, utf8_entry ''application''],
        mk_resmap [0x0101000f],
        mk_start_element 2 [mk_attr 1 0 0xFFFFFFFF 0x12 0xFFFFFFFF],
        mk_end_element 2]"

definition file_of :: "byte list \<Rightarrow> in_stream" where
  "file_of bs = \<lparr>kind = BufferedFile, content = bs\<rparr>"

text \<open>
  No resource map: a pool, an application element without attributes and its end.
\<close>

definition manifest_no_resmap :: "byte list" where
  "manifest_no_resmap =
     mk_manifest
       [mk_pool 0x100 [utf8_entry NS, utf8_entry ''application''],
        mk_start_element 1 [],
        mk_end_element 1]"

text \<open>
  An application element with \<open>android:name\<close> (resource id \<open>0x01010003\<close>) and an
  attribute named \<open>debuggable\<close> whose name, string 3, is beyond the resource map.
\<close>

definition manifest_unmapped_attribute :: "byte list" where
  "manifest_unmapped_attribute =
     mk_manifest
       [mk_pool 0x100 [utf8_entry ''name'', utf8_entry NS, utf8_entry ''application'',
                       utf8_entry ''debuggable''],
        mk_resmap [0x01010003],
        mk_start_element 2 [mk_attr 1 0 2 0x03 2, mk_attr 0xFFFFFFFF 3 0xFFFFFFFF 0x12 0xFFFFFFFF],
        mk_end_element 2]"

text \<open>
  A pool with one style: the table of style offsets follows the table of string offsets, and
  the style blob (one span and the end marker) follows the strings.
\<close>

definition mk_styled_pool :: "int \<Rightarrow> byte list list \<Rightarrow> byte list" where
  "mk_styled_pool poolFlags entries =
     u16 0x0001 @ u16 28
     @ u32 (28 + 4 * int (length entries) + 4 + int (length (concat entries)) + 16)
     @ u32 (int (length entries)) @ u32 1 @ u32 poolFlags
     @ u32 (28 + 4 * int (length entries) + 4)
     @ u32 (28 + 4 * int (length entries) + 4 + int (length (concat entries)))
     @ concat (map u32 (entry_offsets 0 entries)) @ u32 0 @ concat entries
     @ u32 0 @ u32 0 @ u32 3 @ u32 0xFFFFFFFF"

definition manifest_styled :: "byte list" where
  "manifest_styled =
     mk_manifest
       [mk_styled_pool 0x100 [utf8_entry ''name'', utf8_entry NS, utf8_entry ''application''],
        mk_resmap [0x01010003],
        mk_start_element 2 [mk_attr 1 0 2 0x03 2],
        mk_end_element 2]"

text \<open>
  Two chunks of an unknown type behind the end of the element: one whose \<open>chunkSize\<close> (8)
  is smaller than its \<open>headerSize\<close> (16), one whose \<open>chunkSize\<close> (1000) runs past
  the end of the file.
\<close>

definition odd_chunks :: "byte list list" where
  "odd_chunks = [u16 0x0200 @ u16 16 @ u32 8, u16 0x0200 @ u16 8 @ u32 1000]"

definition manifest_odd_sizes :: "byte list" where
  "manifest_odd_sizes =
     mk_manifest
       ([mk_pool 0x100 [utf8_entry ''debuggable'', utf8_entry NS, utf8_entry ''application''],
         mk_resmap [0x0101000f],
         mk_start_element 2 [mk_attr 1 0 0xFFFFFFFF 0x12 0xFFFFFFFF],
         mk_end_element 2] @ odd_chunks)"

text \<open>
  A manifest that is not debuggable yet, with \<open>android:name\<close> and \<open>android:label\<close>
  (\<open>0x01010001\<close>) on the application element, and the same with the two odd chunks.
\<close>

definition manifest_plain :: "byte list" where
  "manifest_plain =
     mk_manifest
       [mk_pool 0x100 [utf8_entry ''label'', utf8_entry ''name'', utf8_entry NS,
                       utf8_entry ''application''],
        mk_resmap [0x01010001, 0x01010003],
        mk_start_element 3 [mk_attr 2 0 3 0x03 3, mk_attr 2 1 3 0x03 3],
        mk_end_element 3]"

text \<open>
  What the slow path makes of it: the new pool entry is \<open>DEBUGGABLE_STRING_DATA_UTF8\<close>,
  twelve bytes.
\<close>

definition manifest_plain_patched :: "byte list" where
  "manifest_plain_patched =
     mk_manifest
       [mk_pool 0x100 [utf8_entry ''label'', utf8_entry ''name'', DEBUGGABLE_STRING_DATA_UTF8,
                       utf8_entry NS, utf8_entry ''application''],
        mk_resmap [0x01010001, 0x01010003, 0x0101000f],
        mk_start_element 4 [mk_attr 3 0 4 0x03 4, mk_attr 3 1 4 0x03 4,
                            mk_attr 3 2 0xFFFFFFFF 0x12 0xFFFFFFFF],
        mk_end_element 4]"

definition manifest_plain_odd :: "byte list" where
  "manifest_plain_odd =
     mk_manifest
       ([mk_pool 0x100 [utf8_entry ''label'', utf8_entry ''name'', utf8_entry NS,
                        utf8_entry ''application''],
         mk_resmap [0x01010001, 0x01010003],
         mk_start_element 3 [mk_attr 2 0 3 0x03 3, mk_attr 2 1 3 0x03 3],
         mk_end_element 3] @ odd_chunks)"

definition manifest_int_patched :: "byte list" where
  "manifest_int_patched =
     mk_manifest
       [mk_pool 0x100 [utf8_entry ''debuggable'', utf8_entry NS, utf8_entry ''application''],
        mk_resmap [0x0101000f],
        mk_start_element 2 [mk_attr 1 0 0xFFFFFFFF 0x10 0xFFFFFFFF],
        mk_end_element 2]"

text \<open>What \<open>patchManifest\<close> finds out about a manifest it can analyse.\<close>

definition analysis_of :: "byte list \<Rightarrow> analysis" where
  "analysis_of bs = projr (the (patchManifest_analysis (file_of bs)))"

text \<open>
  What the second run of the slow path makes of \<open>manifest_plain_patched\<close>: the string,
  the resource id and the attribute once more.
\<close>

definition manifest_plain_patched_twice :: "byte list" where
  "manifest_plain_patched_twice =
     mk_manifest
       [mk_pool 0x100 [utf8_entry ''label'', utf8_entry ''name'', DEBUGGABLE_STRING_DATA_UTF8,
                       DEBUGGABLE_STRING_DATA_UTF8, utf8_entry NS, utf8_entry ''application''],
        mk_resmap [0x01010001, 0x01010003, 0x0101000f, 0x0101000f],
        mk_start_element 5 [mk_attr 4 0 5 0x03 5, mk_attr 4 1 5 0x03 5,
                            mk_attr 4 2 0xFFFFFFFF 0x12 0xFFFFFFFF,
                            mk_attr 4 3 0xFFFFFFFF 0x12 0xFFFFFFFF],
        mk_end_element 5]"

text \<open>What the slow path makes of \<open>manifest_plain_odd\<close>.\<close>

definition manifest_plain_odd_patched :: "byte list" where
  "manifest_plain_odd_patched =
     mk_manifest
       ([mk_pool 0x100 [utf8_entry ''label'', utf8_entry ''name'', DEBUGGABLE_STRING_DATA_UTF8,
                        utf8_entry NS, utf8_entry ''application''],
         mk_resmap [0x01010001, 0x01010003, 0x0101000f],
         mk_start_element 4 [mk_attr 3 0 4 0x03 4, mk_attr 3 1 4 0x03 4,
                             mk_attr 3 2 0xFFFFFFFF 0x12 0xFFFFFFFF],
         mk_end_element 4] @ odd_chunks)"

text \<open>The analyses of some of the examples, written out.\<close>

definition chunk_at :: "int \<Rightarrow> int \<Rightarrow> int \<Rightarrow> int \<Rightarrow> chunkInfo" where
  "chunk_at pos type hSize cSize =
     \<lparr>startOffset = pos,
      commonHeader = \<lparr>chunkType = type, headerSize = hSize, chunkSize = cSize\<rparr>\<rparr>"

definition pool_info :: "int \<Rightarrow> int \<Rightarrow> int \<Rightarrow> strPoolInfo" where
  "pool_info pos cSize n =
     \<lparr>poolChunkInfo = chunk_at pos 1 28 cSize, stringCount = n, styleCount = 0, flags = 0x100,
      stringsStart = 28 + 4 * n, stylesStart = 0, isUtf8 = True\<rparr>"

definition resmap_info :: "int \<Rightarrow> int \<Rightarrow> resmapInfo" where
  "resmap_info pos n =
     \<lparr>mapChunkInfo = Some (chunk_at pos 0x180 8 (8 + 4 * n)), mapLen = n\<rparr>"

definition analysis_debuggable_true :: analysis where
  "analysis_debuggable_true =
     \<lparr>a_fileHeader = \<lparr>chunkType = 3, headerSize = 8, chunkSize = 212\<rparr>,
      a_chunks = [chunk_at 8 1 28 112, chunk_at 120 0x180 8 12, chunk_at 132 0x102 16 56,
                  chunk_at 188 0x103 16 24],
      a_stringPoolIdx = 0, a_resmapIdx = 1,
      a_strPoolInfo = pool_info 8 112 3, a_resmapInfo = resmap_info 120 1,
      a_applicationIdx = 2,
      a_applicationAttributes =
        [\<lparr>attrStartOffset = 168, nsId = 1, nameId = 0, rawVal = 0xFFFFFFFF, attrSize = 8,
          dataType = 0x12, attrData = 0xFFFFFFFF\<rparr>],
      a_debuggableAttributeIdx = 0\<rparr>"

definition analysis_int_patched :: analysis where
  "analysis_int_patched =
     analysis_debuggable_true
       \<lparr>a_applicationAttributes :=
          [\<lparr>attrStartOffset = 168, nsId = 1, nameId = 0, rawVal = 0xFFFFFFFF, attrSize = 8,
            dataType = 0x10, attrData = 0xFFFFFFFF\<rparr>]\<rparr>"

definition analysis_odd_sizes :: analysis where
  "analysis_odd_sizes =
     analysis_debuggable_true
       \<lparr>a_fileHeader := \<lparr>chunkType = 3, headerSize = 8, chunkSize = 228\<rparr>,
        a_chunks := [chunk_at 8 1 28 112, chunk_at 120 0x180 8 12, chunk_at 132 0x102 16 56,
                     chunk_at 188 0x103 16 24, chunk_at 212 0x200 16 8,
                     chunk_at 220 0x200 8 1000]\<rparr>"

definition analysis_unmapped_attribute :: analysis where
  "analysis_unmapped_attribute =
     \<lparr>a_fileHeader = \<lparr>chunkType = 3, headerSize = 8, chunkSize = 243\<rparr>,
      a_chunks = [chunk_at 8 1 28 123, chunk_at 131 0x180 8 12, chunk_at 143 0x102 16 76,
                  chunk_at 219 0x103 16 24],
      a_stringPoolIdx = 0, a_resmapIdx = 1,
      a_strPoolInfo = pool_info 8 123 4, a_resmapInfo = resmap_info 131 1,
      a_applicationIdx = 2,
      a_applicationAttributes =
        [\<lparr>attrStartOffset = 179, nsId = 1, nameId = 0, rawVal = 2, attrSize = 8,
          dataType = 0x03, attrData = 2\<rparr>,
         \<lparr>attrStartOffset = 199, nsId = 0xFFFFFFFF, nameId = 3, rawVal = 0xFFFFFFFF,
          attrSize = 8, dataType = 0x12, attrData = 0xFFFFFFFF\<rparr>],
      a_debuggableAttributeIdx = - 1\<rparr>"

section \<open>Basic facts\<close>

lemma bindE_Inl [simp]: "bindE (Inl e) g = Inl e"
  by (simp add: bindE_def)

lemma bindE_Inr [simp]: "bindE (Inr x) g = g x"
  by (simp add: bindE_def)

lemma bindE_eq_Inr: "bindE m g = Inr y \<longleftrightarrow> (\<exists>x. m = Inr x \<and> g x = Inr y)"
  by (cases m) simp_all

lemma le_int_nonneg: "0 \<le> le_int bs"
  by (induction bs) simp_all

lemma le_int_bound: "le_int bs < 256 ^ length bs"
proof (induction bs)
  case Nil
  show ?case by simp
next
  case (Cons b bs)
  have "uint b < 256"
    using uint_bounded [of b] by simp
  with Cons show ?case by simp
qed

lemma le_bytes_length [simp]: "length (le_bytes n v) = n"
  by (induction n arbitrary: v) simp_all

lemma le_bytes_le_int: "le_bytes (length bs) (le_int bs) = bs"
proof (induction bs)
  case Nil
  show ?case by simp
next
  case (Cons b bs)
  have b: "uint b < 256" "0 \<le> uint b"
    using uint_bounded [of b] by simp_all
  have m: "(uint b + 256 * le_int bs) mod 256 = uint b"
    using b by simp
  have d: "(uint b + 256 * le_int bs) div 256 = le_int bs"
    using b by simp
  have "le_bytes (length (b # bs)) (le_int (b # bs))
          = word_of_int ((uint b + 256 * le_int bs) mod 256)
            # le_bytes (length bs) ((uint b + 256 * le_int bs) div 256)"
    by simp
  also have "\<dots> = word_of_int (uint b) # le_bytes (length bs) (le_int bs)"
    by (simp only: m d)
  also have "\<dots> = b # bs"
    using Cons by simp
  finally show ?case .
qed

lemma le_int_le_bytes: "0 \<le> v \<Longrightarrow> v < 256 ^ n \<Longrightarrow> le_int (le_bytes n v) = v"
proof (induction n arbitrary: v)
  case 0
  then show ?case by simp
next
  case (Suc n)
  have "0 \<le> v div 256" "v div 256 < 256 ^ n"
    using Suc.prems by (simp_all add: div_less_iff_less_mult mult.commute)
  then have "le_int (le_bytes n (v div 256)) = v div 256"
    by (rule Suc.IH)
  moreover have "uint (word_of_int (v mod 256) :: byte) = v mod 256"
    by (simp add: uint_word_of_int take_bit_eq_mod)
  ultimately show ?case by simp
qed

lemma split_fields_length [simp]: "length (split_fields fmt bs) = length fmt"
  by (induction fmt arbitrary: bs) simp_all

lemma unpack_Inr: "unpack fmt bs = Inr vs \<longleftrightarrow> length bs = sum_list fmt \<and> vs = split_fields fmt bs"
  by (auto simp: unpack_def)

lemma stream_read_nonneg:
  "0 \<le> n \<Longrightarrow> stream_read f pos n
     = Inr (take (nat n) (drop (nat pos) (content f)),
            pos + int (length (take (nat n) (drop (nat pos) (content f)))))"
  by (simp add: stream_read_def Let_def)

section \<open>When the scan returns\<close>

declare scanChunks.simps [simp del]

lemma readCommonHeader_Some:
  assumes "readCommonHeader f pos = Inr (Some h, pos')"
  shows "pos' = pos + 8" and "8 \<le> length (drop (nat pos) (content f))"
    and "0 \<le> chunkSize h"
proof -
  let ?data = "take 8 (drop (nat pos) (content f))"
  from assms have len: "\<not> length ?data < 8"
    by (auto simp: readCommonHeader_def stream_read_nonneg COMMON_HEADER_LEN_def
          split: if_splits)
  then show l8: "8 \<le> length (drop (nat pos) (content f))" by simp
  then have l: "length ?data = 8" by simp
  from assms len l show "pos' = pos + 8"
    by (auto simp: readCommonHeader_def stream_read_nonneg COMMON_HEADER_LEN_def unpack_def
          split: if_splits)
  from assms len l have h: "h = \<lparr>chunkType = split_fields [2, 2, 4] ?data ! 0,
        headerSize = split_fields [2, 2, 4] ?data ! 1,
        chunkSize = split_fields [2, 2, 4] ?data ! 2\<rparr>"
    by (auto simp: readCommonHeader_def stream_read_nonneg COMMON_HEADER_LEN_def unpack_def
          split: if_splits)
  then show "0 \<le> chunkSize h"
    by (simp add: le_int_nonneg)
qed

lemma readCommonHeader_not_error: "readCommonHeader f pos \<noteq> Inl e"
  by (auto simp: readCommonHeader_def stream_read_nonneg COMMON_HEADER_LEN_def unpack_def
        split: if_splits)

lemma readCommonHeader_None:
  "readCommonHeader f pos = Inr (None, pos') \<longleftrightarrow>
     length (drop (nat pos) (content f)) < 8 \<and> pos' = pos + int (length (drop (nat pos) (content f)))"
  by (auto simp: readCommonHeader_def stream_read_nonneg COMMON_HEADER_LEN_def unpack_def
        split: if_splits)

text \<open>The seek behind a header never goes back, and it stays where it is only for size 0.\<close>

lemma scan_seek:
  assumes rd: "readCommonHeader f pos = Inr (Some h, pos')"
    and sk: "stream_seek_cur f pos' (chunkSize h - COMMON_HEADER_LEN) = Inr pos''"
  shows "pos'' \<le> pos \<longleftrightarrow> pos'' = pos \<and> (chunkSize h = 0 \<or> pos < 0)"
proof -
  note hd = readCommonHeader_Some [OF rd]
  from hd(2) have "nat pos + 8 \<le> length (content f)"
    by simp
  then have sz: "int (nat pos) + 8 \<le> stream_size f"
    unfolding stream_size_def by linarith
  show ?thesis
  proof (cases "kind f")
    case BufferedFile
    with sk hd(1) have "pos'' = pos + chunkSize h"
      by (auto simp: stream_seek_cur_def stream_seek_def COMMON_HEADER_LEN_def split: if_splits)
    with hd(3) show ?thesis by auto
  next
    case ZipEntry
    with sk hd(1) have "pos'' = max 0 (min (pos + chunkSize h) (stream_size f))"
      by (auto simp: stream_seek_cur_def stream_seek_def COMMON_HEADER_LEN_def)
    with hd(3) sz show ?thesis by auto
  qed
qed

lemma readChunks_loop_stuck:
  assumes rd: "readCommonHeader f pos = Inr (Some h, pos')"
    and sk: "stream_seek_cur f pos' (chunkSize h - COMMON_HEADER_LEN) = Inr pos"
  shows "readChunks_loop f pos acc = None"
proof (rule ccontr)
  assume "readChunks_loop f pos acc \<noteq> None"
  then obtain r where ret: "readChunks_loop f pos acc = Some r" by auto
  have "\<not> (f = f \<and> pos = pos)"
  proof (rule readChunks_loop.raw_induct
      [where P = "\<lambda>inStream currPos chunk r. \<not> (inStream = f \<and> currPos = pos)", OF _ ret])
    fix g inStream currPos chunk r
    assume IH: "\<And>inStream currPos chunk r.
        g inStream currPos chunk = Some r \<Longrightarrow> \<not> (inStream = f \<and> currPos = pos)"
      and eq: "(case readCommonHeader inStream currPos of
            Inl e \<Rightarrow> Some (Inl e)
          | Inr (None, pos') \<Rightarrow> Some (Inr chunk)
          | Inr (Some header, pos') \<Rightarrow>
              (case stream_seek_cur inStream pos' (chunkSize header - COMMON_HEADER_LEN) of
                 Inl e \<Rightarrow> Some (Inl e)
               | Inr pos'' \<Rightarrow>
                   g inStream pos'' (chunk @ [\<lparr>startOffset = currPos, commonHeader = header\<rparr>])))
          = Some r"
    show "\<not> (inStream = f \<and> currPos = pos)"
    proof
      assume same: "inStream = f \<and> currPos = pos"
      with eq rd sk
      have "g f pos (chunk @ [\<lparr>startOffset = pos, commonHeader = h\<rparr>]) = Some r"
        by simp
      from IH [OF this] show False by simp
    qed
  qed
  then show False by simp
qed

lemma readChunks_loop_scanChunks:
  "0 \<le> pos \<Longrightarrow> readChunks_loop f pos acc = scanChunks f pos acc"
proof (induction f pos acc rule: scanChunks.induct)
  case (1 inStream currPos chunk)
  show ?case
  proof (cases "readCommonHeader inStream currPos")
    case (Inl e)
    then show ?thesis
      by (simp add: readChunks_loop.simps [of inStream currPos chunk]
            scanChunks.simps [of inStream currPos chunk])
  next
    case (Inr x)
    obtain ho pos' where x: "x = (ho, pos')" by (cases x)
    show ?thesis
    proof (cases ho)
      case None
      with Inr x show ?thesis
        by (simp add: readChunks_loop.simps [of inStream currPos chunk]
              scanChunks.simps [of inStream currPos chunk])
    next
      case (Some header)
      with Inr x have rd: "readCommonHeader inStream currPos = Inr (Some header, pos')"
        by simp
      show ?thesis
      proof (cases "stream_seek_cur inStream pos' (chunkSize header - COMMON_HEADER_LEN)")
        case (Inl e)
        with rd show ?thesis
          by (simp add: readChunks_loop.simps [of inStream currPos chunk]
                scanChunks.simps [of inStream currPos chunk])
      next
        case sk: (Inr pos'')
        show ?thesis
        proof (cases "pos'' \<le> currPos")
          case True
          with scan_seek [OF rd sk] have "pos'' = currPos" by simp
          with rd sk have "readChunks_loop inStream currPos chunk = None"
            by (simp add: readChunks_loop_stuck)
          with rd sk True show ?thesis
            by (simp add: scanChunks.simps [of inStream currPos chunk])
        next
          case False
          with "1.prems" have "0 \<le> pos''" by simp
          with "1.IH" [OF Inr x [symmetric] Some sk False]
          have "readChunks_loop inStream pos''
                  (chunk @ [\<lparr>startOffset = currPos, commonHeader = header\<rparr>])
                = scanChunks inStream pos''
                  (chunk @ [\<lparr>startOffset = currPos, commonHeader = header\<rparr>])"
            by simp
          with rd sk False show ?thesis
            by (simp add: readChunks_loop.simps [of inStream currPos chunk]
                  scanChunks.simps [of inStream currPos chunk])
        qed
      qed
    qed
  qed
qed

lemma readChunks_scanChunks: "0 \<le> pos \<Longrightarrow> readChunks f pos = scanChunks f pos []"
  by (simp add: readChunks_def readChunks_loop_scanChunks)

section \<open>When the rebuilding loop returns\<close>

lemma injectResmap_eq:
  "injectResmap fOut = Inr (fOut @ [0x80, 0x01, 0x08, 0x00, 0x0C, 0, 0, 0, 0x0F, 0x00, 0x01, 0x01])"
  by (simp add: injectResmap_def writeCommonHeader_def CHUNK_TYPE_RESMAP_def
        COMMON_HEADER_LEN_def UINT32_LENGTH_def DEBUGGABLE_RES_ID_def numeral_eq_Suc)

text \<open>
  In the injecting branch the counter comes back unchanged and nothing else that the
  condition reads has changed: the branch is taken again, for ever.
\<close>

lemma patchManifest_loop_inject:
  assumes i: "i = a_stringPoolIdx a + 1" and rm: "a_resmapIdx a < 0"
    and len: "i < int (length (a_chunks a))"
  shows "patchManifest_loop fIn a androidNsId debuggableStringId i fOut = None"
proof (rule ccontr)
  assume "patchManifest_loop fIn a androidNsId debuggableStringId i fOut \<noteq> None"
  then obtain r where
    ret: "patchManifest_loop fIn a androidNsId debuggableStringId i fOut = Some r"
    by auto
  have "\<not> (a = a \<and> i = i)"
  proof (rule patchManifest_loop.raw_induct
      [where P = "\<lambda>fIn' a' ns' D' i' fOut' r. \<not> (a' = a \<and> i' = i)", OF _ ret])
    fix g fIn' a' ns' D' i' fOut' r
    assume IH: "\<And>fIn' a' ns' D' i' fOut' r.
        g fIn' a' ns' D' i' fOut' = Some r \<Longrightarrow> \<not> (a' = a \<and> i' = i)"
      and eq: "(if \<not> i' < int (length (a_chunks a')) then Some (Inr fOut')
          else if i' = a_stringPoolIdx a' + 1 \<and> a_resmapIdx a' < 0 then
            (case injectResmap fOut' of
               Inl e \<Rightarrow> Some (Inl e)
             | Inr fOut'' \<Rightarrow> g fIn' a' ns' D' (i' - 1 + 1) fOut'')
          else
            (case patchManifest_chunk fIn' a' ns' D' i' fOut' of
               Inl e \<Rightarrow> Some (Inl e)
             | Inr fOut'' \<Rightarrow> g fIn' a' ns' D' (i' + 1) fOut'')) = Some r"
    show "\<not> (a' = a \<and> i' = i)"
    proof
      assume same: "a' = a \<and> i' = i"
      with eq i rm len obtain fOut'' where "g fIn' a ns' D' i fOut'' = Some r"
        by (auto simp: injectResmap_eq)
      from IH [OF this] show False by simp
    qed
  qed
  then show False by simp
qed

text \<open>Behind the injecting branch, or without it, the loop is the total one.\<close>

lemma patchManifest_loop_rest:
  assumes "0 \<le> i"
    and "0 \<le> a_resmapIdx a \<or> a_stringPoolIdx a + 1 < i
         \<or> int (length (a_chunks a)) \<le> a_stringPoolIdx a + 1"
  shows "patchManifest_loop fIn a androidNsId debuggableStringId i fOut
         = Some (patchManifest_chunks fIn a androidNsId debuggableStringId
                   [i .. int (length (a_chunks a)) - 1] fOut)"
  using assms
proof (induction "nat (int (length (a_chunks a)) - i)" arbitrary: i fOut)
  case 0
  then have "\<not> i < int (length (a_chunks a))" by simp
  then show ?case
    by (simp add: patchManifest_loop.simps [of fIn a androidNsId debuggableStringId i fOut])
next
  case (Suc n)
  then have lt: "i < int (length (a_chunks a))" by simp
  then have up: "[i .. int (length (a_chunks a)) - 1] = i # [i + 1 .. int (length (a_chunks a)) - 1]"
    by (simp add: upto_rec1)
  from Suc.prems lt have noinj: "\<not> (i = a_stringPoolIdx a + 1 \<and> a_resmapIdx a < 0)"
    by auto
  show ?case
  proof (cases "patchManifest_chunk fIn a androidNsId debuggableStringId i fOut")
    case (Inl e)
    with lt noinj up show ?thesis
      by (auto simp: patchManifest_loop.simps [of fIn a androidNsId debuggableStringId i fOut])
  next
    case (Inr fOut')
    from Suc.hyps(2) have n: "n = nat (int (length (a_chunks a)) - (i + 1))" by simp
    from Suc.prems have "0 \<le> i + 1"
      and "0 \<le> a_resmapIdx a \<or> a_stringPoolIdx a + 1 < i + 1
           \<or> int (length (a_chunks a)) \<le> a_stringPoolIdx a + 1"
      by auto
    from Suc.hyps(1) [OF n this]
    have "patchManifest_loop fIn a androidNsId debuggableStringId (i + 1) fOut'
          = Some (patchManifest_chunks fIn a androidNsId debuggableStringId
                    [i + 1 .. int (length (a_chunks a)) - 1] fOut')" .
    with Inr lt noinj up show ?thesis
      by (auto simp: patchManifest_loop.simps [of fIn a androidNsId debuggableStringId i fOut])
  qed
qed

text \<open>
  Up to the string pool a manifest without a resource map is rewritten chunk by chunk; if
  that raises nothing and a chunk follows the pool, the loop does not return.
\<close>

lemma patchManifest_loop_before:
  assumes "0 \<le> i" and "i \<le> a_stringPoolIdx a + 1" and "a_resmapIdx a < 0"
    and "a_stringPoolIdx a + 1 < int (length (a_chunks a))"
  shows "patchManifest_loop fIn a androidNsId debuggableStringId i fOut
         = (case patchManifest_chunks fIn a androidNsId debuggableStringId
                   [i .. a_stringPoolIdx a] fOut of
              Inl e \<Rightarrow> Some (Inl e)
            | Inr fOut' \<Rightarrow> None)"
  using assms
proof (induction "nat (a_stringPoolIdx a + 1 - i)" arbitrary: i fOut)
  case 0
  then have i: "i = a_stringPoolIdx a + 1" by simp
  with "0.prems" have "patchManifest_loop fIn a androidNsId debuggableStringId i fOut = None"
    by (simp add: patchManifest_loop_inject)
  with i show ?case by simp
next
  case (Suc n)
  then have lt: "i \<le> a_stringPoolIdx a" by simp
  then have up: "[i .. a_stringPoolIdx a] = i # [i + 1 .. a_stringPoolIdx a]"
    by (simp add: upto_rec1)
  from lt Suc.prems have inrange: "i < int (length (a_chunks a))"
    and noinj: "\<not> (i = a_stringPoolIdx a + 1 \<and> a_resmapIdx a < 0)"
    by auto
  show ?case
  proof (cases "patchManifest_chunk fIn a androidNsId debuggableStringId i fOut")
    case (Inl e)
    with inrange noinj up show ?thesis
      by (auto simp: patchManifest_loop.simps [of fIn a androidNsId debuggableStringId i fOut])
  next
    case (Inr fOut')
    from Suc.hyps(2) have n: "n = nat (a_stringPoolIdx a + 1 - (i + 1))" by simp
    from Suc.prems lt have "0 \<le> i + 1" "i + 1 \<le> a_stringPoolIdx a + 1"
      by auto
    from Suc.hyps(1) [OF n this Suc.prems(3) Suc.prems(4)]
    have "patchManifest_loop fIn a androidNsId debuggableStringId (i + 1) fOut'
          = (case patchManifest_chunks fIn a androidNsId debuggableStringId
                   [i + 1 .. a_stringPoolIdx a] fOut' of
               Inl e \<Rightarrow> Some (Inl e)
             | Inr fOut' \<Rightarrow> None)" .
    with Inr inrange noinj up show ?thesis
      by (auto simp: patchManifest_loop.simps [of fIn a androidNsId debuggableStringId i fOut])
  qed
qed

lemma patchManifest_loop_0:
  "patchManifest_loop fIn a androidNsId debuggableStringId 0 fOut
   = (if a_resmapIdx a < 0 \<and> 0 \<le> a_stringPoolIdx a + 1
          \<and> a_stringPoolIdx a + 1 < int (length (a_chunks a))
      then (case patchManifest_chunks fIn a androidNsId debuggableStringId
                   [0 .. a_stringPoolIdx a] fOut of
              Inl e \<Rightarrow> Some (Inl e)
            | Inr fOut' \<Rightarrow> None)
      else Some (patchManifest_chunks fIn a androidNsId debuggableStringId
                   [0 .. int (length (a_chunks a)) - 1] fOut))"
proof (cases "a_resmapIdx a < 0 \<and> 0 \<le> a_stringPoolIdx a + 1
          \<and> a_stringPoolIdx a + 1 < int (length (a_chunks a))")
  case True
  then show ?thesis
    by (simp add: patchManifest_loop_before)
next
  case False
  then have "0 \<le> a_resmapIdx a \<or> a_stringPoolIdx a + 1 < 0
         \<or> int (length (a_chunks a)) \<le> a_stringPoolIdx a + 1"
    by auto
  with False show ?thesis
    using patchManifest_loop_rest [of 0 a fIn androidNsId debuggableStringId fOut]
    by auto
qed

text \<open>
  With these, the whole of \<open>patchManifest\<close> can be computed: the scan starts at position
  8, behind the file header.
\<close>

lemma patchManifest_scan_code [code]:
  "patchManifest_scan fIn =
     (case readCommonHeader fIn 0 of
        Inl e \<Rightarrow> Some (Inl e)
      | Inr (None, pos) \<Rightarrow> Some (Inl TypeError)
      | Inr (Some fileHeader, pos) \<Rightarrow>
          if headerSize fileHeader \<noteq> COMMON_HEADER_LEN then Some (Inl FileHeaderSize)
          else (case scanChunks fIn 8 [] of
                  None \<Rightarrow> None
                | Some (Inl e) \<Rightarrow> Some (Inl e)
                | Some (Inr chunks) \<Rightarrow> Some (Inr (fileHeader, chunks))))"
proof (cases "readCommonHeader fIn 0")
  case (Inl e)
  then show ?thesis by (simp add: patchManifest_scan_def)
next
  case (Inr x)
  obtain ho pos where x: "x = (ho, pos)" by (cases x)
  show ?thesis
  proof (cases ho)
    case None
    with Inr x show ?thesis by (simp add: patchManifest_scan_def)
  next
    case (Some fileHeader)
    with Inr x have "pos = 8"
      using readCommonHeader_Some(1) [of fIn 0 fileHeader pos] by simp
    with Inr x Some show ?thesis
      by (simp add: patchManifest_scan_def readChunks_scanChunks)
  qed
qed

lemma patchManifest_slow_code [code]:
  "patchManifest_slow fIn a =
     (case writeCommonHeader [] (chunkType (a_fileHeader a)) (headerSize (a_fileHeader a))
             (chunkSize (a_fileHeader a) + totalSizeIncrement a) of
        Inl e \<Rightarrow> Some (Inl e)
      | Inr fOut \<Rightarrow>
          (case findAndroidNsIdx fIn (a_strPoolInfo a) of
             Inl e \<Rightarrow> Some (Inl e)
           | Inr androidNsId \<Rightarrow>
               (if a_resmapIdx a < 0 \<and> 0 \<le> a_stringPoolIdx a + 1
                     \<and> a_stringPoolIdx a + 1 < int (length (a_chunks a))
                then (case patchManifest_chunks fIn a
                             (if androidNsId \<ge> mapLen (a_resmapInfo a) then androidNsId + 1
                              else androidNsId)
                             (mapLen (a_resmapInfo a)) [0 .. a_stringPoolIdx a] fOut of
                        Inl e \<Rightarrow> Some (Inl e)
                      | Inr fOut' \<Rightarrow> None)
                else Some (patchManifest_chunks fIn a
                             (if androidNsId \<ge> mapLen (a_resmapInfo a) then androidNsId + 1
                              else androidNsId)
                             (mapLen (a_resmapInfo a))
                             [0 .. int (length (a_chunks a)) - 1] fOut))))"
  by (simp add: patchManifest_slow_def patchManifest_loop_0 split: sum.splits)

section \<open>What the analysis has established\<close>

lemma patchManifest_decode_Inr:
  assumes "patchManifest_decode fIn fileHeader chunks = Inr a"
  shows "a_fileHeader a = fileHeader" and "a_chunks a = chunks"
    and "findStringpoolAndResmap chunks = Inr (a_stringPoolIdx a, a_resmapIdx a)"
    and "decodeStringPoolInfo fIn (chunks ! nat (a_stringPoolIdx a)) = Inr (a_strPoolInfo a)"
    and "findApplication fIn chunks (a_strPoolInfo a) = Inr (a_applicationIdx a)"
    and "decodeAttributes fIn (chunks ! nat (a_applicationIdx a)) = Inr (a_applicationAttributes a)"
    and "findDebuggableAttribute fIn (a_strPoolInfo a) (a_resmapInfo a) (a_applicationAttributes a)
         = Inr (a_debuggableAttributeIdx a)"
  using assms
  by (auto simp: patchManifest_decode_def bindE_eq_Inr split: if_splits)

lemma patchManifest_analysis_Inr:
  assumes "patchManifest_analysis fIn = Some (Inr a)"
  shows "\<exists>fileHeader chunks. patchManifest_decode fIn fileHeader chunks = Inr a"
  using assms
  by (auto simp: patchManifest_analysis_def split: option.splits sum.splits)

lemma resmapInfo_cases:
  assumes "patchManifest_decode fIn fileHeader chunks = Inr a"
  shows "(a_resmapIdx a = - 1 \<and> a_resmapInfo a = \<lparr>mapChunkInfo = None, mapLen = 0\<rparr>)
       \<or> (0 \<le> a_resmapIdx a
           \<and> a_resmapInfo a = \<lparr>mapChunkInfo = Some (chunks ! nat (a_resmapIdx a)),
                                 mapLen = calculateResMapLength (chunks ! nat (a_resmapIdx a))\<rparr>)"
  using assms
  by (auto simp: patchManifest_decode_def bindE_eq_Inr split: if_splits)

section \<open>Finding the debuggable attribute\<close>

lemma findDebuggableAttribute_loop_found:
  assumes "findDebuggableAttribute_loop f sp rm attrs i0 = Inr i" and "0 \<le> i0" and "0 \<le> i"
  shows "i0 \<le> i \<and> nat (i - i0) < length attrs
       \<and> readString f sp (nameId (attrs ! nat (i - i0))) = Inr (Some DEBUGGABLE_STRING)
       \<and> readResId f rm (nameId (attrs ! nat (i - i0))) = Inr (Some DEBUGGABLE_RES_ID)"
  using assms
proof (induction attrs arbitrary: i0)
  case Nil
  then show ?case by simp
next
  case (Cons attr rest)
  from Cons.prems(1) obtain name resId
    where nm: "readString f sp (nameId attr) = Inr name"
      and rs: "readResId f rm (nameId attr) = Inr resId"
    by (auto split: sum.splits)
  show ?case
  proof (cases "name = Some DEBUGGABLE_STRING \<and> resId = Some DEBUGGABLE_RES_ID")
    case True
    with Cons.prems nm rs have "i = i0" by simp
    with True nm rs show ?thesis by simp
  next
    case False
    with Cons.prems nm rs
    have "findDebuggableAttribute_loop f sp rm rest (i0 + 1) = Inr i"
      by auto
    from Cons.IH [OF this] Cons.prems
    have IH: "i0 + 1 \<le> i" "nat (i - (i0 + 1)) < length rest"
      "readString f sp (nameId (rest ! nat (i - (i0 + 1)))) = Inr (Some DEBUGGABLE_STRING)"
      "readResId f rm (nameId (rest ! nat (i - (i0 + 1)))) = Inr (Some DEBUGGABLE_RES_ID)"
      by simp_all
    from IH(1) have idx: "nat (i - i0) = Suc (nat (i - (i0 + 1)))"
      by simp
    with IH show ?thesis by simp
  qed
qed

lemma findDebuggableAttribute_loop_absent:
  assumes "\<forall>attr \<in> set attrs.
             (\<exists>name resId. readString f sp (nameId attr) = Inr name
                 \<and> readResId f rm (nameId attr) = Inr resId
                 \<and> \<not> (name = Some DEBUGGABLE_STRING \<and> resId = Some DEBUGGABLE_RES_ID))"
  shows "findDebuggableAttribute_loop f sp rm attrs i0 = Inr (- 1)"
  using assms
proof (induction attrs arbitrary: i0)
  case Nil
  show ?case by simp
next
  case (Cons attr rest)
  from Cons.prems obtain name resId
    where "readString f sp (nameId attr) = Inr name"
      and "readResId f rm (nameId attr) = Inr resId"
      and "\<not> (name = Some DEBUGGABLE_STRING \<and> resId = Some DEBUGGABLE_RES_ID)"
    by auto
  moreover from Cons have "findDebuggableAttribute_loop f sp rm rest (i0 + 1) = Inr (- 1)"
    by simp
  ultimately show ?case by auto
qed

text \<open>
  C8. \<open>findDebuggableAttribute\<close> returns an index only of an attribute whose name string
  is \<open>"debuggable"\<close> and whose name index has the resource id \<open>0x0101000F\<close> in the
  resource map, both at once. When no attribute meets both conditions (the name is another
  one, the name index is beyond the resource map, or it has another resource id there) and
  the look-ups raise nothing, it returns \<open>-1\<close>; and with that answer in the analysis,
  \<open>patchManifest\<close> is its slow path.
\<close>

theorem findDebuggableAttribute_both_conditions:
  "(findDebuggableAttribute f sp rm attrs = Inr i \<and> 0 \<le> i \<longrightarrow>
      nat i < length attrs
      \<and> readString f sp (nameId (attrs ! nat i)) = Inr (Some DEBUGGABLE_STRING)
      \<and> readResId f rm (nameId (attrs ! nat i)) = Inr (Some DEBUGGABLE_RES_ID))
   \<and> ((\<forall>attr \<in> set attrs.
          (\<exists>name resId. readString f sp (nameId attr) = Inr name
              \<and> readResId f rm (nameId attr) = Inr resId
              \<and> \<not> (name = Some DEBUGGABLE_STRING \<and> resId = Some DEBUGGABLE_RES_ID))) \<longrightarrow>
        findDebuggableAttribute f sp rm attrs = Inr (- 1))
   \<and> (patchManifest_analysis f = Some (Inr a) \<and> a_debuggableAttributeIdx a = - 1 \<longrightarrow>
        patchManifest f = patchManifest_slow f a)"
proof (intro conjI impI)
  assume "findDebuggableAttribute f sp rm attrs = Inr i \<and> 0 \<le> i"
  then have "findDebuggableAttribute_loop f sp rm attrs 0 = Inr i" and "0 \<le> i"
    by (simp_all add: findDebuggableAttribute_def)
  from findDebuggableAttribute_loop_found [OF this(1) _ this(2)]
  show "nat i < length attrs"
    and "readString f sp (nameId (attrs ! nat i)) = Inr (Some DEBUGGABLE_STRING)"
    and "readResId f rm (nameId (attrs ! nat i)) = Inr (Some DEBUGGABLE_RES_ID)"
    by simp_all
next
  assume "\<forall>attr \<in> set attrs.
          (\<exists>name resId. readString f sp (nameId attr) = Inr name
              \<and> readResId f rm (nameId attr) = Inr resId
              \<and> \<not> (name = Some DEBUGGABLE_STRING \<and> resId = Some DEBUGGABLE_RES_ID))"
  then show "findDebuggableAttribute f sp rm attrs = Inr (- 1)"
    unfolding findDebuggableAttribute_def by (rule findDebuggableAttribute_loop_absent)
next
  assume "patchManifest_analysis f = Some (Inr a) \<and> a_debuggableAttributeIdx a = - 1"
  then show "patchManifest f = patchManifest_slow f a"
    by (simp add: patchManifest_def)
qed

section \<open>The fast path\<close>

lemma le_int_all_ones:
  assumes "length bs = 4" and "le_int bs = 0xFFFFFFFF"
  shows "bs = [0xFF, 0xFF, 0xFF, 0xFF]"
proof -
  have "bs = le_bytes (length bs) (le_int bs)"
    by (simp add: le_bytes_le_int)
  also have "\<dots> = le_bytes 4 0xFFFFFFFF"
    using assms by simp
  also have "\<dots> = [0xFF, 0xFF, 0xFF, 0xFF]"
    by (simp add: numeral_eq_Suc)
  finally show ?thesis .
qed

lemma decodeAttributes_loop_at:
  assumes "decodeAttributes_loop f n pos acc = Inr attrs" and "0 \<le> pos"
    and "\<forall>attr \<in> set acc. attribute_at f attr"
  shows "\<forall>attr \<in> set attrs. attribute_at f attr"
  using assms
proof (induction n arbitrary: pos acc)
  case 0
  then show ?case by simp
next
  case (Suc n)
  let ?bs = "take 20 (drop (nat pos) (content f))"
  have rd: "stream_read f pos ATTRIBUTE_LENGTH = Inr (?bs, pos + int (length ?bs))"
    by (simp add: ATTRIBUTE_LENGTH_def stream_read_nonneg)
  with Suc.prems(1) obtain vs where up: "unpack [4, 4, 4, 2, 1, 1, 4] ?bs = Inr vs"
    by (auto split: sum.splits)
  then have len: "length ?bs = 20" and vs: "vs = split_fields [4, 4, 4, 2, 1, 1, 4] ?bs"
    by (simp_all add: unpack_Inr)
  let ?attr = "\<lparr>attrStartOffset = pos, nsId = vs ! 0, nameId = vs ! 1, rawVal = vs ! 2,
                 attrSize = vs ! 3, dataType = vs ! 5, attrData = vs ! 6\<rparr>"
  from len have "nat pos + 20 \<le> length (content f)"
    by simp
  with Suc.prems(2) vs have "attribute_at f ?attr"
    by (simp add: attribute_at_def Let_def)
  with Suc.prems(3) have acc: "\<forall>attr \<in> set (acc @ [?attr]). attribute_at f attr"
    by simp
  from Suc.prems(1) rd up len
  have "decodeAttributes_loop f n (pos + 20) (acc @ [?attr]) = Inr attrs"
    by simp
  from Suc.IH [OF this _ acc] Suc.prems(2) show ?case
    by simp
qed

lemma stream_seek_nonneg: "stream_seek f p = Inr pos \<Longrightarrow> 0 \<le> pos"
  by (cases "kind f") (auto simp: stream_seek_def split: if_splits)

lemma decodeAttributes_at:
  assumes "decodeAttributes f applicationChunk = Inr attrs"
  shows "\<forall>attr \<in> set attrs. attribute_at f attr"
proof -
  from assms obtain n pos where "decodeAttributes_loop f n pos [] = Inr attrs" and "0 \<le> pos"
    by (auto simp: decodeAttributes_def Let_def bindE_eq_Inr stream_seek_nonneg
          split: if_splits)
  from decodeAttributes_loop_at [OF this] show ?thesis by simp
qed

lemma stream_seek_inside:
  "0 \<le> p \<Longrightarrow> p \<le> stream_size f \<Longrightarrow> stream_seek f p = Inr p"
  by (cases "kind f") (simp_all add: stream_seek_def)

text \<open>
  The output of the fast path: the bytes before the data word of the attribute, four bytes
  \<open>0xFF\<close>, the bytes behind the data word.
\<close>

lemma patchManifest_fast_output:
  assumes at: "attribute_at fIn (a_applicationAttributes a ! nat (a_debuggableAttributeIdx a))"
  shows "patchManifest_fast fIn a
         = Inr (take (nat (attrStartOffset
                        (a_applicationAttributes a ! nat (a_debuggableAttributeIdx a))) + 16)
                  (content fIn)
                @ DEBUGGABLE_VALUE_TRUE
                @ drop (nat (attrStartOffset
                        (a_applicationAttributes a ! nat (a_debuggableAttributeIdx a))) + 20)
                  (content fIn))"
proof -
  let ?off = "attrStartOffset (a_applicationAttributes a ! nat (a_debuggableAttributeIdx a))"
  from at have off: "0 \<le> ?off" and len: "nat ?off + 20 \<le> length (content fIn)"
    by (simp_all add: attribute_at_def)
  have s0: "stream_seek fIn 0 = Inr 0"
    by (simp add: stream_seek_inside stream_size_def)
  have tk: "length (take (nat (?off + 16)) (content fIn)) = nat (?off + 16)"
    using off len by simp
  have c1: "copy fIn (?off + 16) (0, []) = Inr (?off + 16, take (nat (?off + 16)) (content fIn))"
    using off tk by (simp add: copy_def stream_read_nonneg)
  have "?off + 16 + 4 \<le> stream_size fIn"
    using off len unfolding stream_size_def by linarith
  with off have s2: "stream_seek_cur fIn (?off + 16) 4 = Inr (?off + 20)"
    by (simp add: stream_seek_cur_def stream_seek_inside)
  have c3: "copy fIn (- 1) (?off + 20, out)
            = Inr (max (?off + 20) (stream_size fIn), out @ drop (nat (?off + 20)) (content fIn))"
    for out
    by (simp add: copy_def stream_read_def)
  have n16: "nat (?off + 16) = nat ?off + 16" and n20: "nat (?off + 20) = nat ?off + 20"
    using off by simp_all
  show ?thesis
    by (simp add: patchManifest_fast_def Let_def s0 c1 s2 c3 n16 n20)
qed

lemma fast_path_attribute:
  assumes an: "patchManifest_analysis fIn = Some (Inr a)" and idx: "0 \<le> a_debuggableAttributeIdx a"
  shows "nat (a_debuggableAttributeIdx a) < length (a_applicationAttributes a)"
    and "attribute_at fIn (a_applicationAttributes a ! nat (a_debuggableAttributeIdx a))"
proof -
  from patchManifest_analysis_Inr [OF an] obtain fileHeader chunks
    where dec: "patchManifest_decode fIn fileHeader chunks = Inr a"
    by blast
  note facts = patchManifest_decode_Inr [OF dec]
  from facts(7) have "findDebuggableAttribute_loop fIn (a_strPoolInfo a) (a_resmapInfo a)
                        (a_applicationAttributes a) 0 = Inr (a_debuggableAttributeIdx a)"
    by (simp add: findDebuggableAttribute_def)
  from findDebuggableAttribute_loop_found [OF this _ idx]
  show lt: "nat (a_debuggableAttributeIdx a) < length (a_applicationAttributes a)"
    by simp
  with decodeAttributes_at [OF facts(6)]
  show "attribute_at fIn (a_applicationAttributes a ! nat (a_debuggableAttributeIdx a))"
    by simp
qed

text \<open>
  C5. When the analysis of the input finds the debuggable attribute (its name string is
  \<open>"debuggable"\<close> and its name index has the resource id \<open>0x0101000F\<close>) and the data
  word of that attribute is \<open>0xFFFFFFFF\<close>, \<open>patchManifest\<close> returns and its output is
  the input, byte for byte.
\<close>

theorem patchManifest_already_true:
  assumes an: "patchManifest_analysis fIn = Some (Inr a)"
    and idx: "0 \<le> a_debuggableAttributeIdx a"
    and val: "attrData (a_applicationAttributes a ! nat (a_debuggableAttributeIdx a)) = 0xFFFFFFFF"
  shows "patchManifest fIn = Some (Inr (content fIn))"
proof -
  let ?attr = "a_applicationAttributes a ! nat (a_debuggableAttributeIdx a)"
  let ?p = "nat (attrStartOffset ?attr)"
  let ?c = "content fIn"
  from fast_path_attribute [OF an idx] have at: "attribute_at fIn ?attr"
    by simp
  then have len: "?p + 20 \<le> length ?c"
    and dat: "attrData ?attr = split_fields [4, 4, 4, 2, 1, 1, 4] (take 20 (drop ?p ?c)) ! 6"
    by (simp_all add: attribute_at_def Let_def)
  have e1: "split_fields [4, 4, 4, 2, 1, 1, 4] bs ! 6 = le_int (take 4 (drop 16 bs))" for bs
    by simp
  have e2: "take 4 (drop 16 (take 20 (drop ?p ?c))) = take 4 (drop (?p + 16) ?c)"
    by (simp add: drop_take add.commute)
  have "le_int (take 4 (drop (?p + 16) ?c)) = attrData ?attr"
    unfolding dat e1 e2 ..
  then have "le_int (take 4 (drop (?p + 16) ?c)) = 0xFFFFFFFF"
    using val by simp
  moreover have "length (take 4 (drop (?p + 16) ?c)) = 4"
    using len by simp
  ultimately have word: "take 4 (drop (?p + 16) ?c) = DEBUGGABLE_VALUE_TRUE"
    unfolding DEBUGGABLE_VALUE_TRUE_def by (rule le_int_all_ones [rotated])
  have "take (?p + 16) ?c @ take 4 (drop (?p + 16) ?c) @ drop (?p + 20) ?c
        = take (?p + 16) ?c @ drop (?p + 16) ?c"
    using append_take_drop_id [of 4 "drop (?p + 16) ?c"] by (simp add: add.commute)
  then have "take (?p + 16) ?c @ DEBUGGABLE_VALUE_TRUE @ drop (?p + 20) ?c = ?c"
    by (simp add: word)
  with patchManifest_fast_output [OF at] have "patchManifest_fast fIn a = Inr ?c"
    by simp
  with an idx show ?thesis
    by (simp add: patchManifest_def)
qed

section \<open>What is written is appended\<close>

lemma bindE_InrE:
  assumes "bindE m g = Inr y"
  obtains x where "m = Inr x" and "g x = Inr y"
  using assms by (auto simp: bindE_eq_Inr)

lemma copy_appends: "copy f n st = Inr st' \<Longrightarrow> \<exists>w. snd st' = snd st @ w"
  by (auto simp: copy_def bindE_eq_Inr)

lemma patchStringRef_appends: "patchStringRef f D st = Inr st' \<Longrightarrow> \<exists>w. snd st' = snd st @ w"
  by (auto simp: patchStringRef_def bindE_eq_Inr)

lemma writeCommonHeader_appends: "writeCommonHeader fOut t h c = Inr out \<Longrightarrow> \<exists>w. out = fOut @ w"
  by (auto simp: writeCommonHeader_def bindE_eq_Inr)

lemma patchNode_appends: "patchNode f D st = Inr st' \<Longrightarrow> \<exists>w. snd st' = snd st @ w"
  by (auto simp: patchNode_def elim!: bindE_InrE dest!: copy_appends patchStringRef_appends)

lemma patchCDataExt_appends: "patchCDataExt f D st = Inr st' \<Longrightarrow> \<exists>w. snd st' = snd st @ w"
  by (auto simp: patchCDataExt_def elim!: bindE_InrE dest!: copy_appends patchStringRef_appends)

lemma patchNamespaceExt_appends: "patchNamespaceExt f D st = Inr st' \<Longrightarrow> \<exists>w. snd st' = snd st @ w"
  by (auto simp: patchNamespaceExt_def elim!: bindE_InrE dest!: patchStringRef_appends)

lemma patchEndElementExt_appends: "patchEndElementExt f D st = Inr st' \<Longrightarrow> \<exists>w. snd st' = snd st @ w"
  by (auto simp: patchEndElementExt_def elim!: bindE_InrE dest!: patchStringRef_appends)

lemma patchAttribute_appends: "patchAttribute f D st = Inr st' \<Longrightarrow> \<exists>w. snd st' = snd st @ w"
  by (auto simp: patchAttribute_def elim!: bindE_InrE dest!: copy_appends patchStringRef_appends
        split: if_splits)

lemma patchAttribute_times_appends:
  "patchAttribute_times f D n st = Inr st' \<Longrightarrow> \<exists>w. snd st' = snd st @ w"
proof (induction n arbitrary: st)
  case 0
  then show ?case by simp
next
  case (Suc n)
  from Suc.prems obtain st1 where 1: "patchAttribute f D st = Inr st1"
    and 2: "patchAttribute_times f D n st1 = Inr st'"
    by (auto split: sum.splits)
  from patchAttribute_appends [OF 1] Suc.IH [OF 2] show ?case
    by auto
qed

lemma patchAttrExt_appends: "patchAttrExt f c D st = Inr st' \<Longrightarrow> \<exists>w. snd st' = snd st @ w"
  by (auto simp: patchAttrExt_def Let_def elim!: bindE_InrE
        dest!: copy_appends patchStringRef_appends patchAttribute_times_appends)

lemma patchChunk_appends: "patchChunk f c fOut D = Inr out \<Longrightarrow> \<exists>w. out = fOut @ w"
  by (auto simp: patchChunk_def Let_def elim!: bindE_InrE
        dest!: copy_appends patchNode_appends patchNamespaceExt_appends patchAttrExt_appends
          patchEndElementExt_appends patchCDataExt_appends
        split: if_splits)

lemma patchResmap_appends: "patchResmap f rm fOut = Inr out \<Longrightarrow> \<exists>w. out = fOut @ w"
  by (auto simp: patchResmap_def elim!: bindE_InrE
        dest!: copy_appends writeCommonHeader_appends split: option.splits)

lemma patchStringPool_offsets_appends:
  "patchStringPool_offsets f dl n st = Inr st' \<Longrightarrow> \<exists>w. snd st' = snd st @ w"
proof (induction n arbitrary: st)
  case 0
  then show ?case by simp
next
  case (Suc n)
  from Suc.prems obtain v pos' bs where
    2: "patchStringPool_offsets f dl n (pos', snd st @ bs) = Inr st'"
    by (auto split: sum.splits)
  from Suc.IH [OF 2] show ?case
    by auto
qed

lemma patchStringPool_styles_appends:
  "patchStringPool_styles f D n st = Inr st' \<Longrightarrow> \<exists>w. snd st' = snd st @ w"
  by (cases n) (auto split: sum.splits)

lemma patchStringPool_appends: "patchStringPool f sp fOut D = Inr out \<Longrightarrow> \<exists>w. out = fOut @ w"
  by (auto simp: patchStringPool_def Let_def elim!: bindE_InrE
        dest!: copy_appends writeCommonHeader_appends patchStringPool_offsets_appends
          patchStringPool_styles_appends
        split: if_splits)

section \<open>The inserted attribute record\<close>

lemma sublist_in_left: "sublist xs ys \<Longrightarrow> sublist xs (ys @ zs)"
  by (simp add: sublist_append)

lemma sublist_in_right: "sublist xs zs \<Longrightarrow> sublist xs (ys @ zs)"
  by (simp add: sublist_append)

lemma debuggableAttribute_bytes:
  assumes "debuggableAttribute ns D = Inr rec"
  shows "rec = le_bytes 4 ns @ le_bytes 4 D @ [0xFF, 0xFF, 0xFF, 0xFF, 8, 0, 0, 0x12, 0xFF, 0xFF, 0xFF, 0xFF]"
    and "0 \<le> ns" and "ns < 2 ^ 32" and "0 \<le> D" and "D < 2 ^ 32"
  using assms
  by (auto simp: debuggableAttribute_def numeral_eq_Suc split: if_splits)

lemma patchApplicationAttributes_loop_appends:
  assumes "patchApplicationAttributes_loop f rm D ns n inserted st = Inr (ins', st')"
  shows "\<exists>w. snd st' = snd st @ w
           \<and> (inserted \<longrightarrow> ins')
           \<and> (\<not> inserted \<and> ins' \<longrightarrow>
                (\<exists>rec. debuggableAttribute ns D = Inr rec \<and> sublist rec w))"
  using assms
proof (induction n arbitrary: inserted st)
  case 0
  then show ?case by simp
next
  case (Suc n)
  from Suc.prems obtain pos1 name pos2 resId ins1 out1 pos3 st1
    where ins: "(if resId > DEBUGGABLE_RES_ID \<and> \<not> inserted
                 then bindE (debuggableAttribute ns D) (\<lambda>b. Inr (True, snd st @ b))
                 else Inr (inserted, snd st)) = Inr (ins1, out1)"
      and pa: "patchAttribute f D (pos3, out1) = Inr st1"
      and rest: "patchApplicationAttributes_loop f rm D ns n ins1 st1 = Inr (ins', st')"
    by (auto split: sum.splits option.splits)
  from patchAttribute_appends [OF pa] obtain w1 where w1: "snd st1 = out1 @ w1"
    by auto
  from Suc.IH [OF rest] obtain w2 where w2: "snd st' = snd st1 @ w2"
    and mono: "ins1 \<longrightarrow> ins'"
    and later: "\<not> ins1 \<and> ins' \<longrightarrow> (\<exists>rec. debuggableAttribute ns D = Inr rec \<and> sublist rec w2)"
    by blast
  show ?case
  proof (cases "resId > DEBUGGABLE_RES_ID \<and> \<not> inserted")
    case True
    with ins obtain rec where rec: "debuggableAttribute ns D = Inr rec"
      and o1: "out1 = snd st @ rec" and i1: "ins1"
      by (auto simp: bindE_eq_Inr)
    have "sublist rec (rec @ w1 @ w2)"
      by simp
    with rec o1 w1 w2 i1 mono show ?thesis
      by auto
  next
    case False
    with ins have o1: "out1 = snd st" and i1: "ins1 = inserted"
      by auto
    from later i1 have "\<not> inserted \<and> ins' \<longrightarrow>
        (\<exists>rec. debuggableAttribute ns D = Inr rec \<and> sublist rec (w1 @ w2))"
      by (auto intro: sublist_in_right)
    with o1 w1 w2 i1 mono show ?thesis
      by auto
  qed
qed

lemma patchApplicationAttributes_appends:
  assumes "patchApplicationAttributes f st n rm D ns = Inr st'"
  shows "\<exists>w rec. snd st' = snd st @ w \<and> debuggableAttribute ns D = Inr rec \<and> sublist rec w"
proof -
  from assms obtain ins st1
    where lp: "patchApplicationAttributes_loop f rm D ns (nat n) False st = Inr (ins, st1)"
      and fin: "(if \<not> ins then bindE (debuggableAttribute ns D) (\<lambda>b. Inr (fst st1, snd st1 @ b))
                 else Inr st1) = Inr st'"
    by (auto simp: patchApplicationAttributes_def bindE_eq_Inr)
  from patchApplicationAttributes_loop_appends [OF lp] obtain w
    where w: "snd st1 = snd st @ w"
      and found: "ins \<longrightarrow> (\<exists>rec. debuggableAttribute ns D = Inr rec \<and> sublist rec w)"
    by auto
  show ?thesis
  proof (cases ins)
    case True
    with fin found w show ?thesis by auto
  next
    case False
    with fin obtain rec where rec: "debuggableAttribute ns D = Inr rec"
      and "snd st' = snd st1 @ rec"
      by (auto simp: bindE_eq_Inr)
    with w have "snd st' = snd st @ (w @ rec)" by simp
    moreover have "sublist rec (w @ rec)"
      by simp
    ultimately show ?thesis using rec by blast
  qed
qed

lemma patchApplicationElement_appends:
  assumes "patchApplicationElement f c ns D fOut rm = Inr out"
  shows "\<exists>w rec. out = fOut @ w \<and> debuggableAttribute ns D = Inr rec \<and> sublist rec w"
proof -
  from assms obtain out1 st1 st2 st3 hs pos' b st4 st5 st6 st7 pos
    where 1: "writeCommonHeader fOut (chunkType (commonHeader c)) (headerSize (commonHeader c))
                (chunkSize (commonHeader c) + ATTRIBUTE_LENGTH) = Inr out1"
      and 2: "patchNode f D (pos, out1) = Inr st1"
      and 3: "patchStringRef f D st1 = Inr st2"
      and 4: "patchStringRef f D st2 = Inr st3"
      and 5: "copy f (UINT16_LENGTH * 3) (pos', snd st3 @ b) = Inr st4"
      and 6: "copy f (startOffset c + headerSize (commonHeader c) + hs ! 0 - fst st4) st4 = Inr st5"
      and 7: "patchApplicationAttributes f st5 (hs ! 2) rm D ns = Inr st6"
      and 8: "copy f (startOffset c + chunkSize (commonHeader c) - fst st6) st6 = Inr st7"
      and 9: "out = snd st7"
    by (auto simp: patchApplicationElement_def Let_def elim!: bindE_InrE)
  from writeCommonHeader_appends [OF 1] patchNode_appends [OF 2] patchStringRef_appends [OF 3]
    patchStringRef_appends [OF 4] copy_appends [OF 5] copy_appends [OF 6]
  obtain w1 where w1: "snd st5 = fOut @ w1"
    by auto
  from patchApplicationAttributes_appends [OF 7] obtain w2 rec
    where w2: "snd st6 = snd st5 @ w2" and rec: "debuggableAttribute ns D = Inr rec"
      and sub: "sublist rec w2"
    by blast
  from copy_appends [OF 8] obtain w3 where w3: "snd st7 = snd st6 @ w3"
    by blast
  from w1 w2 w3 9 have "out = fOut @ (w1 @ w2 @ w3)"
    by simp
  moreover from sub have "sublist rec (w1 @ w2 @ w3)"
    by (auto intro: sublist_in_left sublist_in_right)
  ultimately show ?thesis using rec by blast
qed

lemma patchManifest_chunk_appends:
  "patchManifest_chunk f a ns D i fOut = Inr out \<Longrightarrow> \<exists>w. out = fOut @ w"
  by (auto simp: patchManifest_chunk_def split: if_splits
        dest!: patchStringPool_appends patchResmap_appends patchApplicationElement_appends
          patchChunk_appends)

lemma patchManifest_chunks_appends:
  assumes "patchManifest_chunks f a ns D is fOut = Inr out"
  shows "\<exists>w. out = fOut @ w
          \<and> (a_applicationIdx a \<in> set is \<and> a_applicationIdx a \<noteq> a_stringPoolIdx a
               \<and> a_applicationIdx a \<noteq> a_resmapIdx a \<longrightarrow>
              (\<exists>rec. debuggableAttribute ns D = Inr rec \<and> sublist rec w))"
  using assms
proof (induction "is" arbitrary: fOut)
  case Nil
  then show ?case by simp
next
  case (Cons i rest)
  from Cons.prems obtain out1 where 1: "patchManifest_chunk f a ns D i fOut = Inr out1"
    and 2: "patchManifest_chunks f a ns D rest out1 = Inr out"
    by (auto split: sum.splits)
  from patchManifest_chunk_appends [OF 1] obtain w1 where w1: "out1 = fOut @ w1"
    by blast
  from Cons.IH [OF 2] obtain w2 where w2: "out = out1 @ w2"
    and later: "a_applicationIdx a \<in> set rest \<and> a_applicationIdx a \<noteq> a_stringPoolIdx a
               \<and> a_applicationIdx a \<noteq> a_resmapIdx a \<longrightarrow>
              (\<exists>rec. debuggableAttribute ns D = Inr rec \<and> sublist rec w2)"
    by blast
  have out: "out = fOut @ (w1 @ w2)"
    using w1 w2 by simp
  show ?case
  proof (cases "i = a_applicationIdx a \<and> a_applicationIdx a \<noteq> a_stringPoolIdx a
               \<and> a_applicationIdx a \<noteq> a_resmapIdx a")
    case True
    with 1 have "patchApplicationElement f (a_chunks a ! nat i) ns D fOut (a_resmapInfo a) = Inr out1"
      by (simp add: patchManifest_chunk_def)
    from patchApplicationElement_appends [OF this] w1 obtain rec
      where "debuggableAttribute ns D = Inr rec" and "sublist rec w1"
      by auto
    then have "\<exists>rec. debuggableAttribute ns D = Inr rec \<and> sublist rec (w1 @ w2)"
      by (auto intro: sublist_in_left)
    with out show ?thesis by blast
  next
    case False
    with later have "a_applicationIdx a \<in> set (i # rest) \<and> a_applicationIdx a \<noteq> a_stringPoolIdx a
               \<and> a_applicationIdx a \<noteq> a_resmapIdx a \<longrightarrow>
              (\<exists>rec. debuggableAttribute ns D = Inr rec \<and> sublist rec (w1 @ w2))"
      by (auto intro: sublist_in_right)
    with out show ?thesis by blast
  qed
qed

section \<open>The slow path\<close>

lemma findStringpoolAndResmap_loop_types:
  assumes "findStringpoolAndResmap_loop cs i sp rm = Inr (sp', rm')" and "0 \<le> i"
  shows "(sp' = sp \<or> (i \<le> sp' \<and> nat (sp' - i) < length cs
            \<and> chunkType (commonHeader (cs ! nat (sp' - i))) = CHUNK_TYPE_STRINGPOOL))
       \<and> (rm' = rm \<or> (i \<le> rm' \<and> nat (rm' - i) < length cs
            \<and> chunkType (commonHeader (cs ! nat (rm' - i))) = CHUNK_TYPE_RESMAP))"
  using assms
proof (induction cs arbitrary: i sp rm)
  case Nil
  then show ?case by simp
next
  case (Cons c cs)
  have shift: "i + 1 \<le> k \<Longrightarrow> nat (k - (i + 1)) < length cs \<Longrightarrow>
      i \<le> k \<and> nat (k - i) < length (c # cs)
      \<and> (c # cs) ! nat (k - i) = cs ! nat (k - (i + 1))" for k
  proof -
    assume a: "i + 1 \<le> k" "nat (k - (i + 1)) < length cs"
    then have "nat (k - i) = Suc (nat (k - (i + 1)))" by simp
    with a show ?thesis by simp
  qed
  show ?case
  proof (cases "chunkType (commonHeader c) = CHUNK_TYPE_STRINGPOOL")
    case True
    with Cons.prems have sp: "\<not> sp \<ge> 0"
      and rest: "findStringpoolAndResmap_loop cs (i + 1) i rm = Inr (sp', rm')"
      by (auto split: if_splits)
    from Cons.IH [OF rest] Cons.prems(2)
    have IH: "(sp' = i \<or> (i + 1 \<le> sp' \<and> nat (sp' - (i + 1)) < length cs
            \<and> chunkType (commonHeader (cs ! nat (sp' - (i + 1)))) = CHUNK_TYPE_STRINGPOOL))
       \<and> (rm' = rm \<or> (i + 1 \<le> rm' \<and> nat (rm' - (i + 1)) < length cs
            \<and> chunkType (commonHeader (cs ! nat (rm' - (i + 1)))) = CHUNK_TYPE_RESMAP))"
      by simp
    with True shift [of sp'] shift [of rm'] show ?thesis
      by auto
  next
    case notpool: False
    show ?thesis
    proof (cases "chunkType (commonHeader c) = CHUNK_TYPE_RESMAP")
      case True
      with notpool Cons.prems
      have rest: "findStringpoolAndResmap_loop cs (i + 1) sp i = Inr (sp', rm')"
        by (auto split: if_splits)
      from Cons.IH [OF rest] Cons.prems(2)
      have IH: "(sp' = sp \<or> (i + 1 \<le> sp' \<and> nat (sp' - (i + 1)) < length cs
            \<and> chunkType (commonHeader (cs ! nat (sp' - (i + 1)))) = CHUNK_TYPE_STRINGPOOL))
       \<and> (rm' = i \<or> (i + 1 \<le> rm' \<and> nat (rm' - (i + 1)) < length cs
            \<and> chunkType (commonHeader (cs ! nat (rm' - (i + 1)))) = CHUNK_TYPE_RESMAP))"
        by simp
      with True shift [of sp'] shift [of rm'] show ?thesis
        by auto
    next
      case False
      with notpool Cons.prems
      have rest: "findStringpoolAndResmap_loop cs (i + 1) sp rm = Inr (sp', rm')"
        by auto
      from Cons.IH [OF rest] Cons.prems(2)
      have IH: "(sp' = sp \<or> (i + 1 \<le> sp' \<and> nat (sp' - (i + 1)) < length cs
            \<and> chunkType (commonHeader (cs ! nat (sp' - (i + 1)))) = CHUNK_TYPE_STRINGPOOL))
       \<and> (rm' = rm \<or> (i + 1 \<le> rm' \<and> nat (rm' - (i + 1)) < length cs
            \<and> chunkType (commonHeader (cs ! nat (rm' - (i + 1)))) = CHUNK_TYPE_RESMAP))"
        by simp
      with shift [of sp'] shift [of rm'] show ?thesis
        by auto
    qed
  qed
qed

lemma findStringpoolAndResmap_types:
  assumes "findStringpoolAndResmap chunks = Inr (sp, rm)"
  shows "0 \<le> sp" and "nat sp < length chunks"
    and "chunkType (commonHeader (chunks ! nat sp)) = CHUNK_TYPE_STRINGPOOL"
    and "rm = - 1 \<or> (0 \<le> rm \<and> nat rm < length chunks
           \<and> chunkType (commonHeader (chunks ! nat rm)) = CHUNK_TYPE_RESMAP)"
proof -
  from assms have lp: "findStringpoolAndResmap_loop chunks 0 (- 1) (- 1) = Inr (sp, rm)"
    and sp: "0 \<le> sp"
    by (auto simp: findStringpoolAndResmap_def bindE_eq_Inr split: if_splits)
  from findStringpoolAndResmap_loop_types [OF lp] sp
  show "0 \<le> sp" and "nat sp < length chunks"
    and "chunkType (commonHeader (chunks ! nat sp)) = CHUNK_TYPE_STRINGPOOL"
    and "rm = - 1 \<or> (0 \<le> rm \<and> nat rm < length chunks
           \<and> chunkType (commonHeader (chunks ! nat rm)) = CHUNK_TYPE_RESMAP)"
    by auto
qed

lemma findApplication_loop_type:
  assumes "findApplication_loop f sp cs i app = Inr app'" and "0 \<le> i"
  shows "app' = app \<or> (i \<le> app' \<and> nat (app' - i) < length cs
            \<and> chunkType (commonHeader (cs ! nat (app' - i))) = CHUNK_TYPE_START_ELEMENT)"
  using assms
proof (induction cs arbitrary: i app)
  case Nil
  then show ?case by simp
next
  case (Cons c cs)
  have shift: "i + 1 \<le> k \<Longrightarrow> nat (k - (i + 1)) < length cs \<Longrightarrow>
      i \<le> k \<and> nat (k - i) < length (c # cs)
      \<and> (c # cs) ! nat (k - i) = cs ! nat (k - (i + 1))" for k
  proof -
    assume a: "i + 1 \<le> k" "nat (k - (i + 1)) < length cs"
    then have "nat (k - i) = Suc (nat (k - (i + 1)))" by simp
    with a show ?thesis by simp
  qed
  from Cons.prems(1)
  consider (skip) "findApplication_loop f sp cs (i + 1) app = Inr app'"
    | (here) "chunkType (commonHeader c) = CHUNK_TYPE_START_ELEMENT"
        "findApplication_loop f sp cs (i + 1) i = Inr app'"
    by (auto split: if_splits sum.splits)
  then show ?case
  proof cases
    case skip
    from Cons.IH [OF skip] Cons.prems(2) shift [of app'] show ?thesis
      by auto
  next
    case here
    from Cons.IH [OF here(2)] Cons.prems(2) shift [of app'] here(1) show ?thesis
      by auto
  qed
qed

lemma findApplication_type:
  assumes "findApplication f chunks sp = Inr app"
  shows "0 \<le> app" and "nat app < length chunks"
    and "chunkType (commonHeader (chunks ! nat app)) = CHUNK_TYPE_START_ELEMENT"
proof -
  from assms have lp: "findApplication_loop f sp chunks 0 (- 1) = Inr app" and app: "0 \<le> app"
    by (auto simp: findApplication_def bindE_eq_Inr split: if_splits)
  from findApplication_loop_type [OF lp] app
  show "0 \<le> app" and "nat app < length chunks"
    and "chunkType (commonHeader (chunks ! nat app)) = CHUNK_TYPE_START_ELEMENT"
    by auto
qed

text \<open>The application element is neither the string pool nor the resource map.\<close>

lemma analysis_indices:
  assumes "patchManifest_analysis fIn = Some (Inr a)"
  shows "0 \<le> a_applicationIdx a" and "a_applicationIdx a < int (length (a_chunks a))"
    and "a_applicationIdx a \<noteq> a_stringPoolIdx a" and "a_applicationIdx a \<noteq> a_resmapIdx a"
    and "0 \<le> a_stringPoolIdx a"
proof -
  from patchManifest_analysis_Inr [OF assms] obtain fileHeader chunks
    where dec: "patchManifest_decode fIn fileHeader chunks = Inr a"
    by blast
  note facts = patchManifest_decode_Inr [OF dec]
  note pool = findStringpoolAndResmap_types [OF facts(3)]
  note app = findApplication_type [OF facts(5)]
  from app facts(2) show "0 \<le> a_applicationIdx a" and "a_applicationIdx a < int (length (a_chunks a))"
    by simp_all
  from pool(1) show "0 \<le> a_stringPoolIdx a" .
  from pool(3) app(3) show "a_applicationIdx a \<noteq> a_stringPoolIdx a"
    by (auto simp: CHUNK_TYPE_STRINGPOOL_def CHUNK_TYPE_START_ELEMENT_def)
  from pool(4) app(1,3) show "a_applicationIdx a \<noteq> a_resmapIdx a"
    by (auto simp: CHUNK_TYPE_RESMAP_def CHUNK_TYPE_START_ELEMENT_def)
qed

text \<open>
  When the slow path returns, its output is the new file header followed by what the
  rebuilding of the chunks wrote, and that holds the record of the new attribute.
\<close>

lemma patchManifest_slow_output:
  assumes an: "patchManifest_analysis fIn = Some (Inr a)"
    and ret: "patchManifest_slow fIn a = Some (Inr out)"
  shows "\<exists>hdr ns w rec.
           pack [2, 2, 4] [chunkType (a_fileHeader a), headerSize (a_fileHeader a),
                           chunkSize (a_fileHeader a) + totalSizeIncrement a] = Inr hdr
           \<and> out = hdr @ w
           \<and> findAndroidNsIdx fIn (a_strPoolInfo a) = Inr ns
           \<and> debuggableAttribute (if ns \<ge> mapLen (a_resmapInfo a) then ns + 1 else ns)
                 (mapLen (a_resmapInfo a)) = Inr rec
           \<and> sublist rec w"
proof -
  let ?D = "mapLen (a_resmapInfo a)"
  from ret obtain hdr ns where hdr: "pack [2, 2, 4] [chunkType (a_fileHeader a),
        headerSize (a_fileHeader a), chunkSize (a_fileHeader a) + totalSizeIncrement a] = Inr hdr"
    and ns: "findAndroidNsIdx fIn (a_strPoolInfo a) = Inr ns"
    and lp: "patchManifest_loop fIn a (if ns \<ge> ?D then ns + 1 else ns) ?D 0 hdr = Some (Inr out)"
    by (auto simp: patchManifest_slow_def writeCommonHeader_def bindE_eq_Inr split: sum.splits)
  let ?ns = "if ns \<ge> ?D then ns + 1 else ns"
  from lp have chunks: "patchManifest_chunks fIn a ?ns ?D [0 .. int (length (a_chunks a)) - 1] hdr
                        = Inr out"
    by (simp only: patchManifest_loop_0 split: if_splits sum.splits) auto
  note idx = analysis_indices [OF an]
  from idx(1,2) have "a_applicationIdx a \<in> set [0 .. int (length (a_chunks a)) - 1]"
    by simp
  with patchManifest_chunks_appends [OF chunks] idx(3,4) obtain w rec
    where "out = hdr @ w" and "debuggableAttribute ?ns ?D = Inr rec" and "sublist rec w"
    by blast
  with hdr ns show ?thesis
    by blast
qed

section \<open>The record of the debuggable attribute in the output\<close>

lemma debuggableAttribute_unpack:
  assumes "debuggableAttribute ns D = Inr rec"
  shows "unpack [4, 4, 4, 2, 1, 1, 4] rec = Inr [ns, D, 0xFFFFFFFF, 8, 0, 0x12, 0xFFFFFFFF]"
proof -
  note b = debuggableAttribute_bytes [OF assms]
  have ns: "le_int (le_bytes 4 ns) = ns" and D: "le_int (le_bytes 4 D) = D"
    using b(2-5) by (simp_all add: le_int_le_bytes)
  have len: "length rec = 20"
    by (simp add: b(1))
  have "split_fields [4, 4, 4, 2, 1, 1, 4] rec = [ns, D, 0xFFFFFFFF, 8, 0, 0x12, 0xFFFFFFFF]"
    unfolding b(1) by (simp add: ns D)
  with len show ?thesis
    by (simp add: unpack_def)
qed

lemma split_fields_attribute:
  assumes "length xs = 16"
  shows "split_fields [4, 4, 4, 2, 1, 1, 4] (xs @ ys)
         = [le_int (take 4 xs), le_int (take 4 (drop 4 xs)), le_int (take 4 (drop 8 xs)),
            le_int (take 2 (drop 12 xs)), le_int (take 1 (drop 14 xs)),
            le_int (take 1 (drop 15 xs)), le_int (take 4 ys)]"
  using assms by simp

text \<open>
  In the output of the fast path the record at the offset of the attribute is the one of the
  input with the data word \<open>0xFFFFFFFF\<close>.
\<close>

lemma fast_output_attribute:
  assumes at: "attribute_at f attr"
    and out: "out = take (nat (attrStartOffset attr) + 16) (content f) @ DEBUGGABLE_VALUE_TRUE
                    @ drop (nat (attrStartOffset attr) + 20) (content f)"
  shows "decodeAttributes_loop (f\<lparr>content := out\<rparr>) 1 (attrStartOffset attr) []
         = Inr [attr\<lparr>attrData := 0xFFFFFFFF\<rparr>]"
    and "length out = length (content f)"
proof -
  let ?p = "nat (attrStartOffset attr)"
  let ?c = "content f"
  let ?x = "take 16 (drop ?p ?c)"
  from at have off: "0 \<le> attrStartOffset attr" and len: "?p + 20 \<le> length ?c"
    and fields: "nsId attr = split_fields [4, 4, 4, 2, 1, 1, 4] (take 20 (drop ?p ?c)) ! 0"
      "nameId attr = split_fields [4, 4, 4, 2, 1, 1, 4] (take 20 (drop ?p ?c)) ! 1"
      "rawVal attr = split_fields [4, 4, 4, 2, 1, 1, 4] (take 20 (drop ?p ?c)) ! 2"
      "attrSize attr = split_fields [4, 4, 4, 2, 1, 1, 4] (take 20 (drop ?p ?c)) ! 3"
      "dataType attr = split_fields [4, 4, 4, 2, 1, 1, 4] (take 20 (drop ?p ?c)) ! 5"
    by (simp_all add: attribute_at_def Let_def)
  have x: "length ?x = 16"
    using len by simp
  have old: "take 20 (drop ?p ?c) = ?x @ take 4 (drop (?p + 16) ?c)"
  proof -
    have "take 20 (drop ?p ?c) = take (16 + 4) (drop ?p ?c)" by simp
    also have "\<dots> = ?x @ take 4 (drop 16 (drop ?p ?c))"
      by (simp only: take_add)
    finally show ?thesis by (simp add: add.commute)
  qed
  have tl: "length (take (?p + 16) ?c) = ?p + 16"
    using len by simp
  have "drop ?p out = drop ?p (take (?p + 16) ?c) @ DEBUGGABLE_VALUE_TRUE @ drop (?p + 20) ?c"
    unfolding out using tl by simp
  also have "drop ?p (take (?p + 16) ?c) = ?x"
    by (simp add: drop_take)
  finally have "take 20 (drop ?p out) = take 20 (?x @ DEBUGGABLE_VALUE_TRUE @ drop (?p + 20) ?c)"
    by simp
  also have "\<dots> = ?x @ DEBUGGABLE_VALUE_TRUE"
    using x by (simp add: DEBUGGABLE_VALUE_TRUE_def)
  finally have new: "take 20 (drop ?p out) = ?x @ DEBUGGABLE_VALUE_TRUE" .
  show lout: "length out = length ?c"
    unfolding out using len by (simp add: DEBUGGABLE_VALUE_TRUE_def)
  have sf_old: "split_fields [4, 4, 4, 2, 1, 1, 4] (take 20 (drop ?p ?c))
                = [le_int (take 4 ?x), le_int (take 4 (drop 4 ?x)), le_int (take 4 (drop 8 ?x)),
                   le_int (take 2 (drop 12 ?x)), le_int (take 1 (drop 14 ?x)),
                   le_int (take 1 (drop 15 ?x)), le_int (take 4 (take 4 (drop (?p + 16) ?c)))]"
    unfolding old by (rule split_fields_attribute [OF x])
  have sf_new: "split_fields [4, 4, 4, 2, 1, 1, 4] (?x @ DEBUGGABLE_VALUE_TRUE)
                = [le_int (take 4 ?x), le_int (take 4 (drop 4 ?x)), le_int (take 4 (drop 8 ?x)),
                   le_int (take 2 (drop 12 ?x)), le_int (take 1 (drop 14 ?x)),
                   le_int (take 1 (drop 15 ?x)), le_int (take 4 DEBUGGABLE_VALUE_TRUE)]"
    by (rule split_fields_attribute [OF x])
  have true: "le_int (take 4 DEBUGGABLE_VALUE_TRUE) = 0xFFFFFFFF"
    by (simp add: DEBUGGABLE_VALUE_TRUE_def)
  have rd: "stream_read (f\<lparr>content := out\<rparr>) (attrStartOffset attr) ATTRIBUTE_LENGTH
            = Inr (?x @ DEBUGGABLE_VALUE_TRUE, attrStartOffset attr + 20)"
    using new x by (simp add: stream_read_nonneg ATTRIBUTE_LENGTH_def DEBUGGABLE_VALUE_TRUE_def)
  have up: "unpack [4, 4, 4, 2, 1, 1, 4] (?x @ DEBUGGABLE_VALUE_TRUE)
            = Inr (split_fields [4, 4, 4, 2, 1, 1, 4] (?x @ DEBUGGABLE_VALUE_TRUE))"
    using x by (simp add: unpack_def DEBUGGABLE_VALUE_TRUE_def)
  have "decodeAttributes_loop (f\<lparr>content := out\<rparr>) (Suc 0) (attrStartOffset attr) []
        = Inr [\<lparr>attrStartOffset = attrStartOffset attr, nsId = nsId attr, nameId = nameId attr,
                rawVal = rawVal attr, attrSize = attrSize attr, dataType = dataType attr,
                attrData = 0xFFFFFFFF\<rparr>]"
    unfolding decodeAttributes_loop.simps rd
    by (simp add: up fields sf_old sf_new true del: split_fields.simps One_nat_def)
  then show "decodeAttributes_loop (f\<lparr>content := out\<rparr>) 1 (attrStartOffset attr) []
         = Inr [attr\<lparr>attrData := 0xFFFFFFFF\<rparr>]"
    by simp
qed

text \<open>
  C1, as amended. Whenever \<open>patchManifest\<close> returns, the analysis of the input has
  succeeded, and:
  on the fast path, the attribute that was found has the name string \<open>"debuggable"\<close> and
  the resource id \<open>0x0101000F\<close> in the input, the output has the length of the input, and
  the record that the output holds at the offset of that attribute is the record of the input
  with the data \<open>0xFFFFFFFF\<close>: the \<open>dataType\<close> is the one of the input;
  on the slow path, the output contains the record of the new attribute, which unpacks to
  the name index \<open>D\<close> (the length of the resource map of the input), the raw value
  \<open>0xFFFFFFFF\<close>, the size 8, the data type \<open>0x12\<close> and the data \<open>0xFFFFFFFF\<close>.
\<close>

theorem patchManifest_debuggable_record:
  assumes "patchManifest fIn = Some (Inr out)"
  shows "\<exists>a. patchManifest_analysis fIn = Some (Inr a) \<and>
    (if 0 \<le> a_debuggableAttributeIdx a
     then (let attr = a_applicationAttributes a ! nat (a_debuggableAttributeIdx a) in
             readString fIn (a_strPoolInfo a) (nameId attr) = Inr (Some DEBUGGABLE_STRING)
           \<and> readResId fIn (a_resmapInfo a) (nameId attr) = Inr (Some DEBUGGABLE_RES_ID)
           \<and> length out = length (content fIn)
           \<and> decodeAttributes_loop (fIn\<lparr>content := out\<rparr>) 1 (attrStartOffset attr) []
               = Inr [attr\<lparr>attrData := 0xFFFFFFFF\<rparr>])
     else (\<exists>androidNsId rec.
             sublist rec out
           \<and> unpack [4, 4, 4, 2, 1, 1, 4] rec
               = Inr [androidNsId, mapLen (a_resmapInfo a), 0xFFFFFFFF, 8, 0, 0x12, 0xFFFFFFFF]))"
proof -
  from assms obtain a where an: "patchManifest_analysis fIn = Some (Inr a)"
    and path: "(if a_debuggableAttributeIdx a \<ge> 0 then Some (patchManifest_fast fIn a)
                else patchManifest_slow fIn a) = Some (Inr out)"
    by (auto simp: patchManifest_def split: option.splits sum.splits)
  show ?thesis
  proof (cases "0 \<le> a_debuggableAttributeIdx a")
    case True
    let ?attr = "a_applicationAttributes a ! nat (a_debuggableAttributeIdx a)"
    note found = fast_path_attribute [OF an True]
    from patchManifest_analysis_Inr [OF an] obtain fileHeader chunks
      where dec: "patchManifest_decode fIn fileHeader chunks = Inr a"
      by blast
    from patchManifest_decode_Inr(7) [OF dec]
    have "findDebuggableAttribute_loop fIn (a_strPoolInfo a) (a_resmapInfo a)
            (a_applicationAttributes a) 0 = Inr (a_debuggableAttributeIdx a)"
      by (simp add: findDebuggableAttribute_def)
    from findDebuggableAttribute_loop_found [OF this _ True]
    have name: "readString fIn (a_strPoolInfo a) (nameId ?attr) = Inr (Some DEBUGGABLE_STRING)"
      and res: "readResId fIn (a_resmapInfo a) (nameId ?attr) = Inr (Some DEBUGGABLE_RES_ID)"
      by simp_all
    from path True patchManifest_fast_output [OF found(2)]
    have out: "out = take (nat (attrStartOffset ?attr) + 16) (content fIn) @ DEBUGGABLE_VALUE_TRUE
                    @ drop (nat (attrStartOffset ?attr) + 20) (content fIn)"
      by simp
    note rec = fast_output_attribute [OF found(2) out]
    from an True name res rec show ?thesis
      by (auto simp: Let_def)
  next
    case False
    with path have "patchManifest_slow fIn a = Some (Inr out)"
      by simp
    from patchManifest_slow_output [OF an this] obtain hdr ns w rec
      where out: "out = hdr @ w"
        and rec: "debuggableAttribute (if ns \<ge> mapLen (a_resmapInfo a) then ns + 1 else ns)
                    (mapLen (a_resmapInfo a)) = Inr rec"
        and sub: "sublist rec w"
      by blast
    from sub out have "sublist rec out"
      by (simp add: sublist_in_right)
    with debuggableAttribute_unpack [OF rec] an False show ?thesis
      by auto
  qed
qed

section \<open>The output file\<close>

text \<open>
  C10. When the input file exists and \<open>patchManifest\<close> raises an error on it,
  \<open>patchManifestByFilename\<close> raises that error, the file system is the one before the call,
  and the output path is not among the files that were opened.
\<close>

theorem patchManifestByFilename_atomic:
  assumes "files fnIn = Some bytes"
    and "patchManifest \<lparr>kind = BufferedFile, content = bytes\<rparr> = Some (Inl e)"
  shows "\<exists>events. patchManifestByFilename files fnIn fnOut = Some (Some e, files, events)
                   \<and> OpenWrite fnOut \<notin> set events"
  using assms by (simp add: patchManifestByFilename_def)

theorem patchManifestByFilename_atomic_witness:
  "\<exists>events. patchManifestByFilename [''AndroidManifest.xml'' \<mapsto> []] ''AndroidManifest.xml''
               ''out.xml''
             = Some (Some TypeError, [''AndroidManifest.xml'' \<mapsto> []], events)
           \<and> OpenWrite ''out.xml'' \<notin> set events"
proof -
  have f: "[''AndroidManifest.xml'' \<mapsto> ([] :: byte list)] ''AndroidManifest.xml'' = Some []"
    by simp
  have r: "patchManifest \<lparr>kind = BufferedFile, content = []\<rparr> = Some (Inl TypeError)"
    by code_simp
  from patchManifestByFilename_atomic
         [of "[''AndroidManifest.xml'' \<mapsto> []]" "''AndroidManifest.xml''" "[]" TypeError
             "''out.xml''", OF f r]
  show ?thesis .
qed

section \<open>The examples, evaluated\<close>

lemma analysis_of_debuggable_true:
  "patchManifest_analysis (file_of manifest_debuggable_true) = Some (Inr analysis_debuggable_true)"
  by code_simp

lemma analysis_of_int_patched:
  "patchManifest_analysis (file_of manifest_int_patched) = Some (Inr analysis_int_patched)"
  by code_simp

lemma analysis_of_odd_sizes:
  "patchManifest_analysis (file_of manifest_odd_sizes) = Some (Inr analysis_odd_sizes)"
  by code_simp

lemma analysis_of_unmapped_attribute:
  "patchManifest_analysis (file_of manifest_unmapped_attribute)
   = Some (Inr analysis_unmapped_attribute)"
  by code_simp

lemma patchManifest_plain:
  "patchManifest (file_of manifest_plain) = Some (Inr manifest_plain_patched)"
  by code_simp

lemma patchManifest_plain_patched:
  "patchManifest (file_of manifest_plain_patched) = Some (Inr manifest_plain_patched_twice)"
  by code_simp

lemma patchManifest_int_debuggable:
  "patchManifest (file_of manifest_int_debuggable) = Some (Inr manifest_int_patched)"
  by code_simp

lemma patchManifest_plain_odd:
  "patchManifest (file_of manifest_plain_odd) = Some (Inr manifest_plain_odd_patched)"
  by code_simp

section \<open>Manifests on which the slow path goes wrong\<close>

text \<open>
  C2. \<open>manifest_no_resmap\<close> has a string pool, no resource map, and an application element
  behind the pool. Its analysis succeeds, the pool is rewritten, and then the round that
  injects the resource map is repeated for ever: \<open>patchManifest\<close> does not return.
\<close>

theorem patchManifest_no_resmap_never_returns:
  "patchManifest (file_of manifest_no_resmap) = None"
  by code_simp

text \<open>
  C3. In \<open>manifest_unmapped_attribute\<close> the second attribute of the application element has
  a name index (3) beyond the resource map (of length 1). On the slow path the comparison of
  its resource id, \<open>None\<close>, with \<open>0x0101000F\<close> raises a \<open>TypeError\<close>.
\<close>

theorem patchManifest_unmapped_attribute_raises:
  "patchManifest (file_of manifest_unmapped_attribute) = Some (Inl TypeError)"
  by code_simp

text \<open>
  C4. The string pool of \<open>manifest_styled\<close> has one style. On the slow path the rewrite of
  the first style record raises a \<open>TypeError\<close>: \<open>unpack\<close> is called without a format.
\<close>

theorem patchManifest_styled_raises:
  "patchManifest (file_of manifest_styled) = Some (Inl TypeError)"
  by code_simp

end
